theory Spec2Isabelle
  imports Complex_Main
begin

section \<open>Data model: what the commands see of the chemfiles library\<close>

text \<open>
  The commands of cfiles work on the frames, unit cells, topologies and trajectories of
  the chemfiles library. A \<open>double\<close> is modelled as a real number (no rounding), a
  \<open>size_t\<close> as a natural number: frames are taken small enough for the index
  arithmetic of the commands (the \<open>size_t\<close> counters and the \<open>int\<close> offset of
  \<open>Merge::run\<close>) not to wrap.
\<close>

type_synonym vector3d = "real \<times> real \<times> real"

type_synonym atom = string

text \<open>
  \<open>UnitCell\<close>: a shape, three lengths and three angles. The commands only read the shape
  and the lengths, and compare two cells with \<open>!=\<close>.
\<close>

datatype cell_shape = ORTHORHOMBIC | TRICLINIC | INFINITE

record unit_cell =
  shape :: cell_shape
  cell_a :: real
  cell_b :: real
  cell_c :: real
  cell_alpha :: real
  cell_beta :: real
  cell_gamma :: real

text \<open>\<open>UnitCell()\<close>: the default cell is the infinite one.\<close>

definition default_cell :: unit_cell where
  "default_cell =
     \<lparr>shape = INFINITE, cell_a = 0, cell_b = 0, cell_c = 0,
      cell_alpha = 90, cell_beta = 90, cell_gamma = 90\<rparr>"

text \<open>\<open>UnitCell(a, b, c)\<close>: an orthorhombic cell.\<close>

definition orthorhombic :: "real \<Rightarrow> real \<Rightarrow> real \<Rightarrow> unit_cell" where
  "orthorhombic a b c =
     \<lparr>shape = ORTHORHOMBIC, cell_a = a, cell_b = b, cell_c = c,
      cell_alpha = 90, cell_beta = 90, cell_gamma = 90\<rparr>"

text \<open>
  A topology: the atoms and the bonds, each bond a pair of atom indexes. A frame: the
  positions, the velocities when they are stored, the topology and the unit cell.
\<close>

record topology =
  topo_atoms :: "atom list"
  bonds :: "(nat \<times> nat) list"

record frame =
  positions :: "vector3d list"
  velocities :: "vector3d list option"
  topology :: topology
  cell :: unit_cell

text \<open>\<open>frame.size()\<close> (\<open>frame.natoms()\<close> in the older commands).\<close>

definition frame_size :: "frame \<Rightarrow> nat" where
  "frame_size fr = length (positions fr)"

text \<open>
  The class invariant of a chemfiles frame: one topology entry per position, and one
  velocity per position when velocities are stored.
\<close>

definition frame_wf :: "frame \<Rightarrow> bool" where
  "frame_wf fr \<longleftrightarrow>
     length (topo_atoms (topology fr)) = length (positions fr) \<and>
     (case velocities fr of None \<Rightarrow> True | Some vs \<Rightarrow> length vs = length (positions fr))"

text \<open>\<open>Frame()\<close>: no atom, no velocity storage, no bond, the default cell.\<close>

definition empty_frame :: frame where
  "empty_frame =
     \<lparr>positions = [], velocities = None,
      topology = \<lparr>topo_atoms = [], bonds = []\<rparr>, cell = default_cell\<rparr>"

text \<open>\<open>Frame::add_velocities\<close>: zeroed velocity storage, one entry per atom.\<close>

definition add_velocities :: "frame \<Rightarrow> frame" where
  "add_velocities fr =
     (case velocities fr of
        None \<Rightarrow> fr\<lparr>velocities := Some (replicate (frame_size fr) (0, 0, 0))\<rparr>
      | Some _ \<Rightarrow> fr)"

text \<open>
  \<open>Frame::add_atom(atom, position)\<close>: appends the atom and its position; the velocity
  argument is defaulted to the zero vector and stored when the frame has velocities.
\<close>

definition add_atom :: "atom \<Rightarrow> vector3d \<Rightarrow> frame \<Rightarrow> frame" where
  "add_atom a p fr =
     fr\<lparr>positions := positions fr @ [p],
        velocities := map_option (\<lambda>vs. vs @ [(0, 0, 0)]) (velocities fr),
        topology := (topology fr)\<lparr>topo_atoms := topo_atoms (topology fr) @ [a]\<rparr>\<rparr>"

text \<open>\<open>Frame::add_bond(i, j)\<close>.\<close>

definition add_bond :: "nat \<Rightarrow> nat \<Rightarrow> frame \<Rightarrow> frame" where
  "add_bond i j fr = fr\<lparr>topology := (topology fr)\<lparr>bonds := bonds (topology fr) @ [(i, j)]\<rparr>\<rparr>"

section \<open>Merge: building one output frame (Merge.cpp, lines 137 to 172)\<close>

text \<open>
  The inner loop \<open>for (i = 0; i < frame.size(); i++) output_frame.add_atom(topology[i],
  positions[i])\<close>.
\<close>

definition copy_atoms :: "frame \<Rightarrow> frame \<Rightarrow> frame" where
  "copy_atoms fr out =
     fold (\<lambda>i out. add_atom (topo_atoms (topology fr) ! i) (positions fr ! i) out)
       [0..<frame_size fr] out"

text \<open>
  \<open>if (frame.velocities()) { ... output_velocities[start + i] = velocities[i]; }\<close>. The
  output frame has velocity storage whenever one input frame has (see \<open>merge_frames\<close>);
  the writes go through the view that \<open>velocities()\<close> returns.
\<close>

definition copy_velocities :: "nat \<Rightarrow> frame \<Rightarrow> frame \<Rightarrow> frame" where
  "copy_velocities start fr out =
     (case velocities fr of
        None \<Rightarrow> out
      | Some vs \<Rightarrow>
          out\<lparr>velocities :=
                map_option
                  (\<lambda>ovs. fold (\<lambda>i ovs. ovs[start + i := vs ! i]) [0..<frame_size fr] ovs)
                  (velocities out)\<rparr>)"

text \<open>
  \<open>for (auto& bond: frame.topology().bonds()) output_frame.add_bond(start + bond[0],
  start + bond[1])\<close>.
\<close>

definition copy_bonds :: "nat \<Rightarrow> frame \<Rightarrow> frame \<Rightarrow> frame" where
  "copy_bonds start fr out =
     fold (\<lambda>bond out. add_bond (start + fst bond) (start + snd bond) out)
       (bonds (topology fr)) out"

text \<open>
  The loop over the current frames, lines 150 to 172: \<open>start\<close> is the running atom
  offset, advanced by \<open>start += frame.size()\<close> at the end of each round. The source
  declares it \<open>auto start = 0\<close>, an \<open>int\<close> that is added to \<open>size_t\<close> indexes; it is a
  natural number here, which is the same as long as the frames of a step hold fewer than
  \<open>2\<^sup>3\<^sup>1\<close> atoms together.
\<close>

fun append_frames :: "nat \<Rightarrow> frame list \<Rightarrow> frame \<Rightarrow> frame" where
  "append_frames start [] out = out"
| "append_frames start (fr # frs) out =
     append_frames (start + frame_size fr) frs
       (copy_bonds start fr (copy_velocities start fr (copy_atoms fr out)))"

text \<open>Lines 137 to 142: the two accumulators of the first loop over the frames.\<close>

definition one_frame_has_velocity :: "frame list \<Rightarrow> bool" where
  "one_frame_has_velocity frames = fold (\<lambda>fr b. b \<or> velocities fr \<noteq> None) frames False"

definition natoms :: "frame list \<Rightarrow> nat" where
  "natoms frames = fold (\<lambda>fr n. n + frame_size fr) frames 0"

text \<open>
  Lines 144 to 172. \<open>output_frame.reserve(natoms)\<close> only sets a capacity, so \<open>natoms\<close>
  leaves no trace in the frame that is built.
\<close>

definition merge_frames :: "frame list \<Rightarrow> frame" where
  "merge_frames frames =
     (let output_frame = empty_frame;
          output_frame =
            (if one_frame_has_velocity frames then add_velocities output_frame
             else output_frame)
      in append_frames 0 frames output_frame)"

section \<open>Merge: trajectories and the main loop (Merge.cpp, lines 82 to 179)\<close>

text \<open>
  The commands throw the exception of cfiles (\<open>cfiles_error\<close>, \<open>CFilesError\<close>) with a
  message; the specification calls it a configuration error. \<open>FileError\<close> and
  \<open>SelectionError\<close> are the exceptions of the library for a failed read and for a
  selection string that does not parse. An \<open>assert\<close> that fails ends the program:
  \<open>AssertionFailed\<close>. \<open>InvalidArgument\<close> is the \<open>std::invalid_argument\<close> of \<open>stod\<close> and
  \<open>stol\<close> on a string that starts with no number, \<open>OutOfRange\<close> the
  \<open>std::out_of_range\<close> of the same functions and of \<open>std::map::at\<close>, \<open>RuntimeError\<close>
  the \<open>std::runtime_error\<close> of docopt for a value read as what it is not.
\<close>

datatype error =
  CFilesError string | FileError string | SelectionError string | AssertionFailed string
  | InvalidArgument string | OutOfRange string | RuntimeError string

text \<open>
  An input trajectory opened for reading: its frames and the index of the next one.
  \<open>read\<close> returns that frame and advances; past the end the library throws.
\<close>

record trajectory =
  traj_frames :: "frame list"
  traj_step :: nat

definition nsteps :: "trajectory \<Rightarrow> nat" where
  "nsteps t = length (traj_frames t)"

definition read :: "trajectory \<Rightarrow> error + frame \<times> trajectory" where
  "read t =
     (if traj_step t < nsteps t
      then Inr (traj_frames t ! traj_step t, t\<lparr>traj_step := Suc (traj_step t)\<rparr>)
      else Inl (FileError ''can not read file past its end''))"

text \<open>\<open>Trajectory(path, 'r', format)\<close> on a file that holds the frames \<open>frs\<close>.\<close>

definition opened :: "frame list \<Rightarrow> trajectory" where
  "opened frs = \<lparr>traj_frames = frs, traj_step = 0\<rparr>"

text \<open>
  The output trajectory: the cell forced on the handle by \<open>set_cell\<close>, if any, and the
  frames handed to \<open>write\<close>, in order.
\<close>

record out_trajectory =
  custom_cell_of :: "unit_cell option"
  written :: "frame list"

definition set_cell :: "unit_cell \<Rightarrow> out_trajectory \<Rightarrow> out_trajectory" where
  "set_cell c t = t\<lparr>custom_cell_of := Some c\<rparr>"

definition write_frame :: "frame \<Rightarrow> out_trajectory \<Rightarrow> out_trajectory" where
  "write_frame fr t = t\<lparr>written := written t @ [fr]\<rparr>"

text \<open>The fields of \<open>Merge::Options\<close> that the loop reads.\<close>

record merge_options =
  custom_cell :: bool
  forced_cell :: unit_cell

text \<open>
  Lines 99 to 106, the loop \<open>for (i = 0; i < inputs.size(); i++)\<close> over the indexes
  \<open>is\<close>. The last component is a trace of the calls of \<open>read\<close>, as pairs (step, input
  index): it is instrumentation, the program keeps no such list.
\<close>

type_synonym read_log = "(nat \<times> nat) list"

fun read_frames ::
  "nat \<Rightarrow> nat list \<Rightarrow> bool \<times> trajectory list \<times> frame list \<times> read_log \<Rightarrow>
   error + bool \<times> trajectory list \<times> frame list \<times> read_log" where
  "read_frames step [] s = Inr s"
| "read_frames step (i # is) (did_read_one_frame, inputs, frames, tr) =
     (if step < nsteps (inputs ! i) then
        (case read (inputs ! i) of
           Inl e \<Rightarrow> Inl e
         | Inr (fr, t) \<Rightarrow>
             read_frames step is (True, inputs[i := t], frames[i := fr], tr @ [(step, i)]))
      else read_frames step is (did_read_one_frame, inputs, frames, tr))"

text \<open>Lines 115 to 121: the first cell that is not infinite, \<open>UnitCell()\<close> when none is.\<close>

fun find_reference :: "unit_cell \<Rightarrow> frame list \<Rightarrow> unit_cell" where
  "find_reference reference [] = reference"
| "find_reference reference (fr # frs) =
     (if shape (cell fr) \<noteq> INFINITE then cell fr else find_reference reference frs)"

text \<open>The exception of lines 128 to 131.\<close>

definition cell_mismatch :: error where
  "cell_mismatch = CFilesError
     ''Mismatch in unit cells. Please specify which one you want using the --cell argument.''"

text \<open>Lines 125 to 134: the comparison of every frame with the reference.\<close>

fun compare_cells :: "unit_cell \<Rightarrow> frame list \<Rightarrow> error + unit" where
  "compare_cells reference [] = Inr ()"
| "compare_cells reference (fr # frs) =
     (if shape (cell fr) \<noteq> INFINITE \<and> cell fr \<noteq> reference
      then Inl cell_mismatch
      else compare_cells reference frs)"

text \<open>Lines 112 to 135.\<close>

definition check_unit_cells :: "merge_options \<Rightarrow> frame list \<Rightarrow> error + unit" where
  "check_unit_cells options frames =
     (if \<not> custom_cell options
      then compare_cells (find_reference default_cell frames) frames
      else Inr ())"

text \<open>The longest input, which bounds the number of rounds of the main loop.\<close>

definition max_nsteps :: "trajectory list \<Rightarrow> nat" where
  "max_nsteps inputs = Max (insert 0 (set (map nsteps inputs)))"

lemma map_update_same: "(map f xs)[i := f (xs ! i)] = map f xs"
  by (cases "i < length xs") (simp_all add: list_update_same_conv list_update_beyond)

lemma read_nsteps: "read t = Inr (fr, t') \<Longrightarrow> nsteps t' = nsteps t"
  by (auto simp: read_def nsteps_def split: if_splits)

lemma read_frames_nsteps:
  "read_frames step is (d, inputs, frames, tr) = Inr (d', inputs', frames', tr') \<Longrightarrow>
   map nsteps inputs' = map nsteps inputs"
proof (induction "is" arbitrary: d inputs frames tr)
  case Nil
  then show ?case by simp
next
  case (Cons i "is")
  show ?case
  proof (cases "step < nsteps (inputs ! i)")
    case False
    with Cons show ?thesis by simp
  next
    case True
    with Cons.prems obtain fr t where r: "read (inputs ! i) = Inr (fr, t)"
      and rest: "read_frames step is (True, inputs[i := t], frames[i := fr], tr @ [(step, i)])
                 = Inr (d', inputs', frames', tr')"
      by (auto split: sum.splits)
    have "map nsteps inputs' = map nsteps (inputs[i := t])"
      using Cons.IH [OF rest] .
    also have "\<dots> = map nsteps inputs"
      using read_nsteps [OF r] by (simp add: map_update map_update_same)
    finally show ?thesis .
  qed
qed

lemma read_frames_did_read:
  "read_frames step is (d, inputs, frames, tr) = Inr (d', inputs', frames', tr') \<Longrightarrow>
   d' \<Longrightarrow> d \<or> (\<exists>i\<in>set is. step < nsteps (inputs ! i))"
proof (induction "is" arbitrary: d inputs frames tr)
  case Nil
  then show ?case by simp
next
  case (Cons i "is")
  show ?case
  proof (cases "step < nsteps (inputs ! i)")
    case False
    with Cons show ?thesis by auto
  next
    case True
    then show ?thesis by simp
  qed
qed

lemma max_nsteps_cong:
  "map nsteps inputs' = map nsteps inputs \<Longrightarrow> max_nsteps inputs' = max_nsteps inputs"
  by (simp add: max_nsteps_def)

lemma less_max_nsteps:
  assumes "i < length inputs" and "step < nsteps (inputs ! i)"
  shows "step < max_nsteps inputs"
proof -
  have "nsteps (inputs ! i) \<in> insert 0 (set (map nsteps inputs))"
    using assms(1) by simp
  then have "nsteps (inputs ! i) \<le> max_nsteps inputs"
    unfolding max_nsteps_def by (intro Max_ge) simp_all
  with assms(2) show ?thesis by simp
qed

text \<open>
  Lines 96 to 176, the loop \<open>while (true)\<close>. The result is the return value of \<open>run\<close> or
  the exception that left it, with the output trajectory and the trace of reads as they
  are at that moment. A round that read no frame ends the run; a round whose cells do
  not match throws before anything is written for it.
\<close>

function merge_loop ::
  "merge_options \<Rightarrow> nat \<Rightarrow> trajectory list \<Rightarrow> frame list \<Rightarrow> out_trajectory \<Rightarrow> read_log \<Rightarrow>
   (error + int) \<times> out_trajectory \<times> read_log" where
  "merge_loop options step inputs frames outfile tr =
     (case read_frames step [0..<length inputs] (False, inputs, frames, tr) of
        Inl e \<Rightarrow> (Inl e, outfile, tr)
      | Inr (did_read_one_frame, inputs', frames', tr') \<Rightarrow>
          if \<not> did_read_one_frame then (Inr 0, outfile, tr')
          else
            (case check_unit_cells options frames' of
               Inl e \<Rightarrow> (Inl e, outfile, tr')
             | Inr _ \<Rightarrow>
                 merge_loop options (Suc step) inputs' frames'
                   (write_frame (merge_frames frames') outfile) tr'))"
  by pat_completeness auto
termination
proof (relation "measure (\<lambda>(options, step, inputs, frames, outfile, tr). max_nsteps inputs - step)")
  show "wf (measure (\<lambda>(options, step, inputs, frames, outfile, tr). max_nsteps inputs - step))"
    by simp
next
  fix options :: merge_options and step inputs frames and outfile :: out_trajectory
    and tr :: read_log and x2 did inputs' z frames' tr' u y w
  assume r: "read_frames step [0..<length inputs] (False, inputs, frames, tr) = Inr x2"
    and x2: "(did, y) = x2" "(inputs', z) = y" "(frames', tr') = z"
    and did: "\<not> \<not> did"
  from r x2 have r': "read_frames step [0..<length inputs] (False, inputs, frames, tr) =
      Inr (did, inputs', frames', tr')"
    by simp
  have m: "max_nsteps inputs' = max_nsteps inputs"
    using read_frames_nsteps [OF r'] by (rule max_nsteps_cong)
  from read_frames_did_read [OF r'] did obtain i where "i < length inputs" "step < nsteps (inputs ! i)"
    by auto
  then have "step < max_nsteps inputs" by (rule less_max_nsteps)
  with m show "((options, Suc step, inputs', frames', write_frame (merge_frames frames') outfile, tr'),
         (options, step, inputs, frames, outfile, tr))
        \<in> measure (\<lambda>(options, step, inputs, frames, outfile, tr). max_nsteps inputs - step)"
    by simp
qed

declare merge_loop.simps [simp del]

text \<open>
  \<open>Merge::run\<close> after the options are parsed; \<open>infiles\<close> holds the frames of each input
  file, in the order of the command line, and the output file starts empty. The inputs
  are opened (lines 85 to 89), the forced cell goes to the output handle (lines 92 to 94),
  and the slots start as \<open>inputs.size()\<close> default frames (line 97).
\<close>

definition merge_run ::
  "merge_options \<Rightarrow> frame list list \<Rightarrow> (error + int) \<times> out_trajectory \<times> read_log" where
  "merge_run options infiles =
     (let inputs = map opened infiles;
          outfile = \<lparr>custom_cell_of = None, written = []\<rparr>;
          outfile =
            (if custom_cell options then set_cell (forced_cell options) outfile else outfile);
          frames = replicate (length inputs) empty_frame
      in merge_loop options 0 inputs frames outfile [])"

section \<open>Radial distribution function (Rdf.cpp, Rdf.hpp)\<close>

text \<open>
  The volume of an infinite cell is 0, and line 133 of Rdf.cpp divides by the volume:
  the doubles of lines 133 to 138 can be infinite or not a number. Such a double is a
  \<open>Number\<close> (a real number: no rounding, no overflow, and a zero counts as positive),
  \<open>PlusInfinity\<close>, \<open>MinusInfinity\<close> or \<open>NotANumber\<close>; \<open>dmul\<close> and \<open>ddiv\<close> are the
  product and the quotient of IEEE 754 on them.
\<close>

datatype double = Number real | PlusInfinity | MinusInfinity | NotANumber

definition infinity_of :: "bool \<Rightarrow> double" where
  "infinity_of positive = (if positive then PlusInfinity else MinusInfinity)"

fun dmul :: "double \<Rightarrow> double \<Rightarrow> double" where
  "dmul (Number x) (Number y) = Number (x * y)"
| "dmul (Number x) PlusInfinity = (if x = 0 then NotANumber else infinity_of (0 < x))"
| "dmul (Number x) MinusInfinity = (if x = 0 then NotANumber else infinity_of (x < 0))"
| "dmul PlusInfinity (Number y) = (if y = 0 then NotANumber else infinity_of (0 < y))"
| "dmul MinusInfinity (Number y) = (if y = 0 then NotANumber else infinity_of (y < 0))"
| "dmul PlusInfinity PlusInfinity = PlusInfinity"
| "dmul PlusInfinity MinusInfinity = MinusInfinity"
| "dmul MinusInfinity PlusInfinity = MinusInfinity"
| "dmul MinusInfinity MinusInfinity = PlusInfinity"
| "dmul NotANumber y = NotANumber"
| "dmul x NotANumber = NotANumber"

fun ddiv :: "double \<Rightarrow> double \<Rightarrow> double" where
  "ddiv (Number x) (Number y) =
     (if y \<noteq> 0 then Number (x / y)
      else if x = 0 then NotANumber
      else infinity_of (0 < x))"
| "ddiv (Number x) PlusInfinity = Number 0"
| "ddiv (Number x) MinusInfinity = Number 0"
| "ddiv PlusInfinity (Number y) = infinity_of (0 \<le> y)"
| "ddiv MinusInfinity (Number y) = infinity_of (y < 0)"
| "ddiv PlusInfinity PlusInfinity = NotANumber"
| "ddiv PlusInfinity MinusInfinity = NotANumber"
| "ddiv MinusInfinity PlusInfinity = NotANumber"
| "ddiv MinusInfinity MinusInfinity = NotANumber"
| "ddiv NotANumber y = NotANumber"
| "ddiv x NotANumber = NotANumber"

text \<open>
  The bins of a histogram are kept as real numbers: \<open>finite_bins\<close> gives the values of
  a list of doubles when every one of them is a number, and \<open>None\<close> when one is
  infinite or not a number.
\<close>

fun finite_bins :: "double list \<Rightarrow> real list option" where
  "finite_bins [] = Some []"
| "finite_bins (Number x # ds) =
     (case finite_bins ds of None \<Rightarrow> None | Some xs \<Rightarrow> Some (x # xs))"
| "finite_bins (d # ds) = None"

text \<open>
  Modelled from the spec: the class \<open>Histogram<double>\<close> (Histogram.hpp is not among the
  sources), sections 3 and 4.1 of the specification. A histogram has fixed bounds and
  one value per bin; the number of bins is the length of \<open>bins\<close>.
\<close>

record histogram =
  lower_bound :: real
  upper_bound :: real
  bins :: "real list"

text \<open>
  Modelled from the spec: the constructor \<open>Histogram(bin_count, lower_bound,
  upper_bound)\<close>, which builds zeroed bins.
\<close>

definition Histogram :: "nat \<Rightarrow> real \<Rightarrow> real \<Rightarrow> histogram" where
  "Histogram bin_count lo hi = \<lparr>lower_bound = lo, upper_bound = hi, bins = replicate bin_count 0\<rparr>"

text \<open>
  Modelled from the spec: \<open>bin_size()\<close>, the fixed width
  \<open>(upper_bound - lower_bound) / bin_count\<close>.
\<close>

definition bin_size :: "histogram \<Rightarrow> real" where
  "bin_size h = (upper_bound h - lower_bound h) / real (length (bins h))"

text \<open>
  Modelled from the spec: \<open>insert_at(x)\<close> does nothing when \<open>x\<close> is outside
  \<open>[lower_bound, upper_bound)\<close> and otherwise increments the bin of index
  \<open>floor((x - lower_bound) / bin_size)\<close>.
\<close>

definition insert_at :: "real \<Rightarrow> histogram \<Rightarrow> histogram" where
  "insert_at x h =
     (if x < lower_bound h \<or> upper_bound h \<le> x then h
      else (let i = nat \<lfloor>(x - lower_bound h) / bin_size h\<rfloor>
            in h\<lparr>bins := (bins h)[i := bins h ! i + 1]\<rparr>))"

text \<open>
  Modelled from the spec: \<open>normalize(f)\<close> replaces the value of every bin by
  \<open>f(index, value)\<close>. The result is \<open>None\<close> when a bin is left infinite or not a
  number.
\<close>

definition normalize :: "(nat \<Rightarrow> real \<Rightarrow> double) \<Rightarrow> histogram \<Rightarrow> histogram option" where
  "normalize f h =
     (case finite_bins (map (\<lambda>(i, val). f i val) (zip [0..<length (bins h)] (bins h))) of
        None \<Rightarrow> None
      | Some values \<Rightarrow> Some (h\<lparr>bins := values\<rparr>))"

text \<open>
  A parsed \<open>Selection\<close> of the library: \<open>size()\<close> is its arity, \<open>list(frame)\<close> the atoms
  matched by a selection of arity 1, \<open>evaluate(frame)\<close> the matches, each a tuple of
  \<open>size()\<close> atom indexes.
\<close>

record selection =
  sel_size :: nat
  sel_list :: "frame \<Rightarrow> nat list"
  sel_evaluate :: "frame \<Rightarrow> nat list list"

text \<open>
  The fields of \<open>AverageCommand::options()\<close> that Rdf.cpp reads (the declaration is in
  AverageCommand.hpp, which is not among the sources).
\<close>

record average_options =
  trajectory :: string
  avg_custom_cell :: bool
  avg_cell :: unit_cell

text \<open>
  \<open>Rdf::Options\<close> (Rdf.hpp, lines 9 to 18) and the members \<open>options_\<close> and \<open>selection_\<close>
  of \<open>Rdf\<close>. The field \<open>outfile\<close> is named \<open>rdf_outfile\<close> here.
\<close>

record rdf_options =
  rdf_outfile :: string
  selection :: string
  npoints :: nat
  rmax :: real

record rdf =
  rdf_options :: rdf_options
  rdf_selection :: selection

text \<open>
  The command line after docopt: the values of \<open>--output\<close> (\<open>None\<close> when the option
  is not given), \<open>--max\<close>, \<open>--points\<close> and \<open>--selection\<close>, as the strings that
  \<open>asString\<close> returns. The last three have a default in the usage text, so docopt
  always gives them a string.
\<close>

record rdf_args =
  arg_output :: "string option"
  arg_max :: string
  arg_points :: string
  arg_selection :: string

text \<open>
  What a command does to files: the trace of the files opened, the frames read and the
  files written so far.
\<close>

datatype io_event = OpenFile string | ReadFrame string | WriteFile string

text \<open>
  \<open>Rdf::setup\<close>, lines 47 to 75, from the result of docopt on. It is given the trace of
  the file events so far and returns the trace as it is when it returns or throws.

  \<open>AverageCommand::parse_options\<close> (not among the sources) is the parameter
  \<open>parse_options\<close>: a member function that may change the options of the harness, may
  open or read files, and returns or throws. \<open>std::stod\<close> and \<open>std::stol\<close> are the
  parameters \<open>stod\<close> and \<open>stol\<close>: they return the number or throw. The constructor
  \<open>Selection(string)\<close> of the library is the parameter \<open>parse_selection\<close>. The
  assignments are kept in the order of the source, so that the state is right whichever
  statement throws; \<open>npoints\<close> is a \<open>size_t\<close> that receives a \<open>long\<close>.
\<close>

definition rdf_setup ::
  "(rdf_args \<Rightarrow> average_options \<times> io_event list \<Rightarrow>
      (error + unit) \<times> average_options \<times> io_event list) \<Rightarrow>
   (string \<Rightarrow> error + selection) \<Rightarrow> (string \<Rightarrow> error + real) \<Rightarrow> (string \<Rightarrow> error + int) \<Rightarrow>
   rdf_args \<Rightarrow> rdf \<times> average_options \<times> histogram \<times> io_event list \<Rightarrow>
   (error + unit) \<times> rdf \<times> average_options \<times> histogram \<times> io_event list" where
  "rdf_setup parse_options parse_selection stod stol args s =
     (case s of (self, average, histogram, io) \<Rightarrow>
      (case parse_options args (average, io) of
         (Inl e, average, io) \<Rightarrow> (Inl e, self, average, histogram, io)
       | (Inr u, average, io) \<Rightarrow>
          (let options = rdf_options self;
               options = options\<lparr>rdf_outfile :=
                 (case arg_output args of Some file \<Rightarrow> file
                  | None \<Rightarrow> trajectory average @ ''.rdf'')\<rparr>;
               self = self\<lparr>rdf_options := options\<rparr>
           in (case stod (arg_max args) of
                 Inl e \<Rightarrow> (Inl e, self, average, histogram, io)
               | Inr max_read \<Rightarrow>
                  (let options = options\<lparr>rmax := max_read\<rparr>;
                       self = self\<lparr>rdf_options := options\<rparr>
                   in (case stol (arg_points args) of
                         Inl e \<Rightarrow> (Inl e, self, average, histogram, io)
                       | Inr points_read \<Rightarrow>
                          (let options = options\<lparr>npoints := nat (points_read mod 2 ^ 64)\<rparr>;
                               options = options\<lparr>selection := arg_selection args\<rparr>;
                               options =
                                 (if avg_custom_cell average then
                                    (let cell = avg_cell average;
                                         L = min (cell_a cell) (min (cell_b cell) (cell_c cell))
                                     in options\<lparr>rmax := L / 2\<rparr>)
                                  else options);
                               histogram = Histogram (npoints options) 0 (rmax options);
                               self = self\<lparr>rdf_options := options\<rparr>
                           in (case parse_selection (selection options) of
                                 Inl e \<Rightarrow> (Inl e, self, average, histogram, io)
                               | Inr sel \<Rightarrow>
                                  (let self = self\<lparr>rdf_selection := sel\<rparr>
                                   in if sel_size sel > 2
                                      then (Inl (CFilesError
                                              ''Can not use a selection with more than two atoms in RDF.''),
                                            self, average, histogram, io)
                                      else (Inr (), self, average, histogram, io))))))))))"

text \<open>The difference and the norm of \<open>Vector3D\<close>.\<close>

definition vsub :: "vector3d \<Rightarrow> vector3d \<Rightarrow> vector3d" where
  "vsub u v = (case u of (x, y, z) \<Rightarrow> (case v of (x', y', z') \<Rightarrow> (x - x', y - y', z - z')))"

definition norm3d :: "vector3d \<Rightarrow> real" where
  "norm3d v = (case v of (x, y, z) \<Rightarrow> sqrt (x * x + y * y + z * z))"

text \<open>
  \<open>norm(cell.wrap(positions[j] - positions[i]))\<close>, lines 105 and 120. \<open>UnitCell::wrap\<close>
  is the parameter \<open>wrap\<close>.
\<close>

definition rij :: "(unit_cell \<Rightarrow> vector3d \<Rightarrow> vector3d) \<Rightarrow> frame \<Rightarrow> nat \<Rightarrow> nat \<Rightarrow> real" where
  "rij wrap frame i j =
     norm3d (wrap (cell frame) (vsub (positions frame ! j) (positions frame ! i)))"

text \<open>
  Lines 106 to 109 and 121 to 124: a pair below \<open>rmax\<close> goes to the histogram and is
  counted.
\<close>

definition record_pair ::
  "(unit_cell \<Rightarrow> vector3d \<Rightarrow> vector3d) \<Rightarrow> real \<Rightarrow> frame \<Rightarrow> nat \<Rightarrow> nat \<Rightarrow>
   histogram \<times> nat \<Rightarrow> histogram \<times> nat" where
  "record_pair wrap r_max frame i j s =
     (case s of (histogram, npairs) \<Rightarrow>
        (let r = rij wrap frame i j
         in if r < r_max then (insert_at r histogram, npairs + 1) else (histogram, npairs)))"

text \<open>
  Lines 92 to 126. With a selection of one atom the matched atoms are paired with each
  other, \<open>continue\<close> skipping \<open>i == j\<close>; otherwise the selection must be of two atoms
  (the \<open>assert\<close> of line 114) and its matches are the pairs.
\<close>

definition count_pairs ::
  "(unit_cell \<Rightarrow> vector3d \<Rightarrow> vector3d) \<Rightarrow> rdf \<Rightarrow> frame \<Rightarrow> histogram \<Rightarrow>
   error + histogram \<times> nat" where
  "count_pairs wrap self frame histogram =
     (if sel_size (rdf_selection self) = 1 then
        (let matched = sel_list (rdf_selection self) frame
         in Inr (fold (\<lambda>i s.
                   fold (\<lambda>j s.
                     if i = j then s
                     else record_pair wrap (rmax (rdf_options self)) frame i j s) matched s)
                 matched (histogram, 0)))
      else if sel_size (rdf_selection self) \<noteq> 2 then
        Inl (AssertionFailed ''selection_.size() == 2'')
      else
        (let matched = sel_evaluate (rdf_selection self) frame
         in Inr (fold (\<lambda>match s.
                   (let i = match ! 0; j = match ! 1
                    in record_pair wrap (rmax (rdf_options self)) frame i j s))
                 matched (histogram, 0))))"

text \<open>The constant \<open>pi\<close> of line 15.\<close>

definition pi_const :: real where
  "pi_const = 3.141592653589793238463"

text \<open>
  Lines 129, 130 and 133: \<open>V = cell.volume(); if (V > 0) V = 1; rho = frame.natoms() / V\<close>.
\<close>

definition rdf_density :: "nat \<Rightarrow> real \<Rightarrow> double" where
  "rdf_density n V0 =
     (let V = (if V0 > 0 then 1 else V0)
      in ddiv (Number (real n)) (Number V))"

text \<open>
  Lines 128 to 139: \<open>norm = 1e-6 * 2 * 4 * pi * rho * npairs * dr\<close>, then \<open>normalize\<close>
  with \<open>val / (norm * r * r)\<close> for the bin of index \<open>i\<close>, where \<open>r = (i + 0.5) * dr\<close>.
  \<open>UnitCell::volume\<close> is the parameter \<open>volume\<close>. In a histogram without any bin
  \<open>dr\<close> is not a number, and the value of no bin is computed from it.
\<close>

definition rdf_normalize ::
  "(unit_cell \<Rightarrow> real) \<Rightarrow> frame \<Rightarrow> nat \<Rightarrow> histogram \<Rightarrow> histogram option" where
  "rdf_normalize volume frame npairs histogram =
     (let dr = bin_size histogram;
          rho = rdf_density (frame_size frame) (volume (cell frame));
          norm = dmul (dmul (dmul (Number (1 / 1000000 * 2 * 4 * pi_const)) rho)
                         (Number (real npairs))) (Number dr)
      in normalize
           (\<lambda>i val. (let r = (real i + 0.5) * dr
                     in ddiv (Number val) (dmul (dmul norm (Number r)) (Number r))))
           histogram)"

text \<open>
  \<open>Rdf::accumulate\<close>, lines 92 to 140. The histogram is \<open>None\<close> when the normalization
  leaves a bin infinite or not a number.
\<close>

definition rdf_accumulate ::
  "(unit_cell \<Rightarrow> vector3d \<Rightarrow> vector3d) \<Rightarrow> (unit_cell \<Rightarrow> real) \<Rightarrow> rdf \<Rightarrow> frame \<Rightarrow> histogram \<Rightarrow>
   error + histogram option" where
  "rdf_accumulate wrap volume self frame histogram =
     (case count_pairs wrap self frame histogram of
        Inl e \<Rightarrow> Inl e
      | Inr (histogram, npairs) \<Rightarrow> Inr (rdf_normalize volume frame npairs histogram))"

section \<open>Convert (HBonds.cpp, lines 18 to 149)\<close>

text \<open>
  The result of docopt: a map from the names of the usage text to values, each of one
  of the kinds of \<open>docopt::value\<close>.
\<close>

datatype docopt_value =
  Empty_value | Bool_value bool | Long_value int | String_value string
  | StringList_value "string list"

type_synonym docopt_args = "string \<Rightarrow> docopt_value option"

text \<open>
  The names in the usage text of lines 18 to 63: the command, the one positional
  argument and the options of the section \<open>Options:\<close> (an option with a short and a
  long name goes by its long name). docopt returns a map with these keys and no
  other. The text has no \<open><input>\<close>, \<open><output>\<close>, \<open>--wrap\<close>, \<open>--input-format\<close> or
  \<open>--output-format\<close>: they only appear in the section \<open>Examples:\<close>, which docopt
  does not read.
\<close>

definition hbonds_usage :: "string list" where
  "hbonds_usage =
     [''hbonds'', ''<trajectory>'', ''--help'', ''--output'', ''--format'', ''--topology'',
      ''--topology-format'', ''--guess-bonds'', ''--cell'', ''--steps'', ''--selection'',
      ''--parameters'']"

text \<open>
  The accessors of the map and of its values. \<open>args[key]\<close> on a map that is not
  \<open>const\<close> gives the value of the key, and an empty value for a key that the map does
  not hold (the entry that it then adds is never read through \<open>at\<close>); \<open>args.at(key)\<close>,
  here \<open>map_at\<close>, throws for such a key. \<open>asString\<close> and \<open>asBool\<close> throw on a value of another
  kind; a value converts to \<open>true\<close> when it is not empty.
\<close>

definition subscript :: "docopt_args \<Rightarrow> string \<Rightarrow> docopt_value" where
  "subscript args key = (case args key of None \<Rightarrow> Empty_value | Some v \<Rightarrow> v)"

definition map_at :: "docopt_args \<Rightarrow> string \<Rightarrow> error + docopt_value" where
  "map_at args key = (case args key of None \<Rightarrow> Inl (OutOfRange ''map::at'') | Some v \<Rightarrow> Inr v)"

definition kindAsString :: "docopt_value \<Rightarrow> string" where
  "kindAsString v =
     (case v of
        Empty_value \<Rightarrow> ''empty''
      | Bool_value b \<Rightarrow> ''bool''
      | Long_value n \<Rightarrow> ''long''
      | String_value s \<Rightarrow> ''string''
      | StringList_value l \<Rightarrow> ''string-list'')"

definition asString :: "docopt_value \<Rightarrow> error + string" where
  "asString v =
     (case v of
        String_value s \<Rightarrow> Inr s
      | _ \<Rightarrow> Inl (RuntimeError (''Illegal cast to string; type is actually '' @ kindAsString v)))"

definition asBool :: "docopt_value \<Rightarrow> error + bool" where
  "asBool v =
     (case v of
        Bool_value b \<Rightarrow> Inr b
      | _ \<Rightarrow> Inl (RuntimeError (''Illegal cast to bool; type is actually '' @ kindAsString v)))"

definition is_given :: "docopt_value \<Rightarrow> bool" where
  "is_given v = (v \<noteq> Empty_value)"

text \<open>
  The fields of \<open>HBonds::Options\<close> that \<open>parse_options\<close> writes (the declaration is in
  HBonds.hpp, which is not among the sources). A range of steps is a start, an end and
  a stride.
\<close>

type_synonym steps_range = "nat \<times> nat \<times> nat"

record hbonds_options =
  hb_infile :: string
  hb_outfile :: string
  hb_input_format :: string
  hb_output_format :: string
  hb_steps :: steps_range
  hb_guess_bonds :: bool
  hb_wrap :: bool
  hb_custom_cell :: bool
  hb_cell :: unit_cell
  hb_topology :: string
  hb_topology_format :: string

text \<open>
  A statement that may throw, followed by the rest of the function: the rest runs on
  the value when there is one.
\<close>

definition and_then :: "error + 'a \<Rightarrow> ('a \<Rightarrow> error + 'b) \<Rightarrow> error + 'b" where
  "and_then m f = (case m of Inl e \<Rightarrow> Inl e | Inr x \<Rightarrow> f x)"

text \<open>
  \<open>parse_options\<close>, lines 65 to 108, from the result of docopt on; it is named
  \<open>hbonds_parse_options\<close> here. \<open>options\<close> is at first the value that
  \<open>HBonds::Options options;\<close> gives; it is a local variable, so that nothing is left
  of it when a statement throws. \<open>steps_range::parse\<close> and \<open>parse_cell\<close> (utils.hpp,
  not among the sources) are the parameters \<open>parse_steps\<close> and \<open>parse_cell\<close>.
\<close>

definition hbonds_parse_options ::
  "(string \<Rightarrow> error + steps_range) \<Rightarrow> (string \<Rightarrow> error + unit_cell) \<Rightarrow> hbonds_options \<Rightarrow>
   docopt_args \<Rightarrow> error + hbonds_options" where
  "hbonds_parse_options parse_steps parse_cell options args =
     and_then (asString (subscript args ''<input>'')) (\<lambda>infile.
     and_then (asString (subscript args ''<output>'')) (\<lambda>outfile.
     and_then (map_at args ''--guess-bonds'') (\<lambda>guess_bonds_value.
     and_then (asBool guess_bonds_value) (\<lambda>guess_bonds.
     and_then (map_at args ''--wrap'') (\<lambda>wrap_value.
     and_then (asBool wrap_value) (\<lambda>wrap.
     and_then (map_at args ''--steps'') (\<lambda>steps_value.
     and_then
       (let options = options\<lparr>hb_infile := infile, hb_outfile := outfile,
              hb_guess_bonds := guess_bonds, hb_wrap := wrap\<rparr>
        in if is_given steps_value
           then and_then (asString steps_value) (\<lambda>steps_string.
                and_then (parse_steps steps_string) (\<lambda>steps.
                Inr (options\<lparr>hb_steps := steps\<rparr>)))
           else Inr options) (\<lambda>options.
     and_then
       (if is_given (subscript args ''--input-format'')
        then and_then (asString (subscript args ''--input-format'')) (\<lambda>input_format.
             Inr (options\<lparr>hb_input_format := input_format\<rparr>))
        else Inr options) (\<lambda>options.
     and_then
       (if is_given (subscript args ''--output-format'')
        then and_then (asString (subscript args ''--output-format'')) (\<lambda>output_format.
             Inr (options\<lparr>hb_output_format := output_format\<rparr>))
        else Inr options) (\<lambda>options.
     and_then
       (if is_given (subscript args ''--topology'')
        then if hb_guess_bonds options
             then Inl (CFilesError (''Can not use both '--topology' and '--guess-bonds'' @ [CHR 0x27]))
             else and_then (asString (subscript args ''--topology'')) (\<lambda>topology.
                  Inr (options\<lparr>hb_topology := topology\<rparr>))
        else Inr options) (\<lambda>options.
     and_then
       (if is_given (subscript args ''--topology-format'')
        then if hb_topology options = []
             then Inl (CFilesError (''Useless '--topology-format' without '--topology'' @ [CHR 0x27]))
             else and_then (asString (subscript args ''--topology-format'')) (\<lambda>topology_format.
                  Inr (options\<lparr>hb_topology_format := topology_format\<rparr>))
        else Inr options) (\<lambda>options.
     if is_given (subscript args ''--cell'')
     then (let options = options\<lparr>hb_custom_cell := True\<rparr>
           in and_then (asString (subscript args ''--cell'')) (\<lambda>cell_string.
              and_then (parse_cell cell_string) (\<lambda>cell.
              Inr (options\<lparr>hb_cell := cell\<rparr>))))
     else Inr options))))))))))))"

text \<open>
  \<open>infile.set_cell\<close> and \<open>infile.set_topology\<close>: every frame read afterwards carries
  the cell, or the topology, given to the trajectory.
\<close>

definition infile_set_cell :: "unit_cell \<Rightarrow> trajectory \<Rightarrow> trajectory" where
  "infile_set_cell c t = t\<lparr>traj_frames := map (\<lambda>fr. fr\<lparr>cell := c\<rparr>) (traj_frames t)\<rparr>"

definition infile_set_topology :: "topology \<Rightarrow> trajectory \<Rightarrow> trajectory" where
  "infile_set_topology topo t =
     t\<lparr>traj_frames := map (\<lambda>fr. fr\<lparr>topology := topo\<rparr>) (traj_frames t)\<rparr>"

text \<open>
  Lines 136 to 143. \<open>for (auto position: positions)\<close> declares \<open>position\<close> by value, so
  each round assigns the wrapped vector to a copy of the element; the frame is the
  same after the round as before.
\<close>

definition wrap_positions :: "(unit_cell \<Rightarrow> vector3d \<Rightarrow> vector3d) \<Rightarrow> frame \<Rightarrow> frame" where
  "wrap_positions wrap frame =
     (let positions = positions frame;
          cell = cell frame
      in fold (\<lambda>position frame. (let position = wrap cell position in frame)) positions frame)"

text \<open>
  Lines 129 to 146, one round for each index of \<open>is\<close>. \<open>Frame::guess_topology\<close> is the
  parameter \<open>guess_topology\<close>. The result holds the two trajectories as they are when
  the loop ends or a read throws.
\<close>

fun hbonds_steps ::
  "(unit_cell \<Rightarrow> vector3d \<Rightarrow> vector3d) \<Rightarrow> (frame \<Rightarrow> frame) \<Rightarrow> hbonds_options \<Rightarrow> nat list \<Rightarrow>
   trajectory \<times> out_trajectory \<Rightarrow> (error + unit) \<times> trajectory \<times> out_trajectory" where
  "hbonds_steps wrap guess_topology options [] s = (Inr (), s)"
| "hbonds_steps wrap guess_topology options (i # is) (infile, outfile) =
     (case read infile of
        Inl e \<Rightarrow> (Inl e, infile, outfile)
      | Inr (frame, infile) \<Rightarrow>
          (let frame = (if hb_guess_bonds options then guess_topology frame else frame);
               frame = (if hb_wrap options then wrap_positions wrap frame else frame)
           in hbonds_steps wrap guess_topology options is (infile, write_frame frame outfile)))"

text \<open>
  \<open>HBonds::run\<close>, lines 115 to 149, from the result of docopt on. \<open>files\<close> gives the
  frames of the trajectory files that exist, by path; \<open>read_topology\<close> is the topology
  that the library reads in the file given to \<open>set_topology\<close>; the output trajectory is
  taken to open. The result is what \<open>run\<close> returns or throws, with the output
  trajectory as it is left: \<open>None\<close> when \<open>run\<close> has not come to open it.
\<close>

definition hbonds_run ::
  "(unit_cell \<Rightarrow> vector3d \<Rightarrow> vector3d) \<Rightarrow> (frame \<Rightarrow> frame) \<Rightarrow> (string \<Rightarrow> string \<Rightarrow> topology) \<Rightarrow>
   (string \<Rightarrow> error + steps_range) \<Rightarrow> (string \<Rightarrow> error + unit_cell) \<Rightarrow> hbonds_options \<Rightarrow>
   (string \<Rightarrow> frame list option) \<Rightarrow> docopt_args \<Rightarrow> (error + int) \<times> out_trajectory option" where
  "hbonds_run wrap guess_topology read_topology parse_steps parse_cell default_options files args =
     (case hbonds_parse_options parse_steps parse_cell default_options args of
        Inl e \<Rightarrow> (Inl e, None)
      | Inr options \<Rightarrow>
         (case files (hb_infile options) of
            None \<Rightarrow> (Inl (FileError (hb_infile options)), None)
          | Some frs \<Rightarrow>
             (let infile = opened frs;
                  outfile = \<lparr>custom_cell_of = None, written = []\<rparr>;
                  infile =
                    (if hb_custom_cell options then infile_set_cell (hb_cell options) infile
                     else infile);
                  infile =
                    (if hb_topology options \<noteq> []
                     then infile_set_topology
                            (read_topology (hb_topology options) (hb_topology_format options))
                            infile
                     else infile)
              in (case hbonds_steps wrap guess_topology options [0..<nsteps infile]
                          (infile, outfile) of
                    (Inl e, infile, outfile) \<Rightarrow> (Inl e, Some outfile)
                  | (Inr u, infile, outfile) \<Rightarrow> (Inr 0, Some outfile)))))"

section \<open>Notions used in the statements\<close>

text \<open>
  For the statements below: the offset of input \<open>i\<close> in the output frame is the number
  of atoms of the frames before it, and a bond is translated by adding an offset to both
  of its indexes.
\<close>

definition atom_offset :: "frame list \<Rightarrow> nat \<Rightarrow> nat" where
  "atom_offset frames i = sum_list (map frame_size (take i frames))"

definition translate :: "nat \<Rightarrow> nat \<times> nat \<Rightarrow> nat \<times> nat" where
  "translate start bond = (start + fst bond, start + snd bond)"

text \<open>
  The frame that the slot of an input holds at step \<open>k\<close>: frame \<open>k\<close> of the file while
  there is one, then its last frame; the default frame when the file has no frame.
\<close>

definition held_frame :: "frame list \<Rightarrow> nat \<Rightarrow> frame" where
  "held_frame file k =
     (if k < length file then file ! k
      else if file = [] then empty_frame
      else last file)"

definition held_frames :: "frame list list \<Rightarrow> nat \<Rightarrow> frame list" where
  "held_frames infiles k = map (\<lambda>file. held_frame file k) infiles"

text \<open>The largest number of steps of an input, 0 when there is no input.\<close>

definition longest_input :: "frame list list \<Rightarrow> nat" where
  "longest_input infiles = Max (insert 0 (set (map length infiles)))"

text \<open>
  The minimum-image distance of two atoms of a frame: the norm of the vector from atom
  \<open>i\<close> to atom \<open>j\<close> once it is wrapped into the unit cell of the frame (by
  \<open>UnitCell::wrap\<close> of the library, the parameter \<open>wrap\<close>). Then the pairs that the
  radial distribution function has to consider, those among them that it has to record
  (the distance is strictly below \<open>rmax\<close>), and the histogram with the distances of a
  list of pairs inserted.
\<close>

definition minimum_image_distance ::
  "(unit_cell \<Rightarrow> vector3d \<Rightarrow> vector3d) \<Rightarrow> frame \<Rightarrow> nat \<Rightarrow> nat \<Rightarrow> real" where
  "minimum_image_distance wrap frame i j =
     norm3d (wrap (cell frame) (vsub (positions frame ! j) (positions frame ! i)))"

definition distinct_pairs :: "nat list \<Rightarrow> (nat \<times> nat) list" where
  "distinct_pairs matched = [(i, j). i \<leftarrow> matched, j \<leftarrow> matched, i \<noteq> j]"

definition considered_pairs :: "selection \<Rightarrow> frame \<Rightarrow> (nat \<times> nat) list" where
  "considered_pairs sel frame =
     (if sel_size sel = 1 then distinct_pairs (sel_list sel frame)
      else map (\<lambda>match. (match ! 0, match ! 1)) (sel_evaluate sel frame))"

definition recorded_pairs ::
  "(unit_cell \<Rightarrow> vector3d \<Rightarrow> vector3d) \<Rightarrow> rdf \<Rightarrow> frame \<Rightarrow> (nat \<times> nat) list" where
  "recorded_pairs wrap self frame =
     filter (\<lambda>(i, j). minimum_image_distance wrap frame i j < rmax (rdf_options self))
       (considered_pairs (rdf_selection self) frame)"

definition insert_pairs ::
  "(unit_cell \<Rightarrow> vector3d \<Rightarrow> vector3d) \<Rightarrow> frame \<Rightarrow> (nat \<times> nat) list \<Rightarrow> histogram \<Rightarrow> histogram" where
  "insert_pairs wrap frame ps histogram =
     fold (\<lambda>(i, j) h. insert_at (minimum_image_distance wrap frame i j) h) ps histogram"

text \<open>
  For the proofs about the main loop of merge, on opened trajectories: the effect of a
  round on an input, the frame an input holds at a step, the reads of a step, the first
  step whose cells do not match, and the inputs and the slots at the start of a round.
\<close>

definition advance :: "nat \<Rightarrow> trajectory \<Rightarrow> trajectory" where
  "advance step t = (if step < nsteps t then t\<lparr>traj_step := Suc (traj_step t)\<rparr> else t)"

definition current_frame :: "trajectory \<Rightarrow> nat \<Rightarrow> frame" where
  "current_frame t k =
     (if k < nsteps t then traj_frames t ! k
      else if nsteps t = 0 then empty_frame
      else last (traj_frames t))"

definition current_frames :: "trajectory list \<Rightarrow> nat \<Rightarrow> frame list" where
  "current_frames inputs k = map (\<lambda>t. current_frame t k) inputs"

definition reads_at :: "trajectory list \<Rightarrow> nat \<Rightarrow> read_log" where
  "reads_at inputs k = map (Pair k) (filter (\<lambda>i. k < nsteps (inputs ! i)) [0..<length inputs])"

definition first_mismatch :: "merge_options \<Rightarrow> trajectory list \<Rightarrow> nat" where
  "first_mismatch options inputs =
     length (takeWhile (\<lambda>k. check_unit_cells options (current_frames inputs k) = Inr ())
       [0..<max_nsteps inputs])"

definition inputs_at :: "trajectory list \<Rightarrow> nat \<Rightarrow> trajectory list" where
  "inputs_at inputs k = map (\<lambda>t. t\<lparr>traj_step := min k (nsteps t)\<rparr>) inputs"

definition slots_before :: "trajectory list \<Rightarrow> nat \<Rightarrow> frame list" where
  "slots_before inputs k =
     (case k of 0 \<Rightarrow> replicate (length inputs) empty_frame | Suc j \<Rightarrow> current_frames inputs j)"

section \<open>Example inputs\<close>

text \<open>
  Two frames for merge: two atoms with the bond (0, 1) and velocities, three atoms with
  the bond (1, 2) and no velocity. A frame of one atom at \<open>(x, 0, 0)\<close>.
\<close>

definition frame_two :: frame where
  "frame_two =
     \<lparr>positions = [(0, 0, 0), (1, 0, 0)], velocities = Some [(1, 0, 0), (0, 1, 0)],
      topology = \<lparr>topo_atoms = [''O'', ''H''], bonds = [(0, 1)]\<rparr>, cell = default_cell\<rparr>"

definition frame_three :: frame where
  "frame_three =
     \<lparr>positions = [(0, 2, 0), (0, 3, 0), (0, 4, 0)], velocities = None,
      topology = \<lparr>topo_atoms = [''C'', ''O'', ''O''], bonds = [(1, 2)]\<rparr>, cell = default_cell\<rparr>"

definition one_atom :: "atom \<Rightarrow> real \<Rightarrow> unit_cell \<Rightarrow> frame" where
  "one_atom a x c =
     \<lparr>positions = [(x, 0, 0)], velocities = None,
      topology = \<lparr>topo_atoms = [a], bonds = []\<rparr>, cell = c\<rparr>"

text \<open>
  Input files: three and five steps with infinite cells; one step each with two
  different orthorhombic cells. Options without and with a forced cell.
\<close>

definition file_A :: "frame list" where
  "file_A = [one_atom ''A'' 0 default_cell, one_atom ''A'' 1 default_cell,
     one_atom ''A'' 2 default_cell]"

definition file_B :: "frame list" where
  "file_B = [one_atom ''B'' 10 default_cell, one_atom ''B'' 11 default_cell,
     one_atom ''B'' 12 default_cell, one_atom ''B'' 13 default_cell,
     one_atom ''B'' 14 default_cell]"

definition file_P :: "frame list" where
  "file_P = [one_atom ''P'' 0 (orthorhombic 10 10 10)]"

definition file_Q :: "frame list" where
  "file_Q = [one_atom ''Q'' 0 (orthorhombic 20 20 20)]"

definition no_cell :: merge_options where
  "no_cell = \<lparr>custom_cell = False, forced_cell = default_cell\<rparr>"

definition with_cell :: merge_options where
  "with_cell = \<lparr>custom_cell = True, forced_cell = orthorhombic 30 30 30\<rparr>"

text \<open>
  For the radial distribution function: the selection of all atoms, a selection of
  pairs with three matches, a selection of three atoms, a parser that knows the first
  and the last, options of the harness with a custom cell and an option parser that
  returns them without touching a file, the command line \<open>--max=10 --points=200\<close> with
  a selection, the same with \<open>--max=abc\<close>, and an \<open>Rdf\<close> as it is after \<open>setup\<close> with
  2 bins up to \<open>rmax = 2\<close>, with the selection of all atoms and with the selection of
  pairs.
\<close>

definition sel_all :: selection where
  "sel_all =
     \<lparr>sel_size = 1, sel_list = (\<lambda>fr. [0..<frame_size fr]),
      sel_evaluate = (\<lambda>fr. map (\<lambda>i. [i]) [0..<frame_size fr])\<rparr>"

definition sel_pairs :: selection where
  "sel_pairs =
     \<lparr>sel_size = 2, sel_list = (\<lambda>fr. []), sel_evaluate = (\<lambda>fr. [[0, 1], [0, 2], [2, 1]])\<rparr>"

definition sel_angles :: selection where
  "sel_angles = \<lparr>sel_size = 3, sel_list = (\<lambda>fr. []), sel_evaluate = (\<lambda>fr. [])\<rparr>"

definition example_selection :: "string \<Rightarrow> error + selection" where
  "example_selection s =
     (if s = ''all'' then Inr sel_all
      else if s = ''angles: all'' then Inr sel_angles
      else Inl (SelectionError s))"

definition example_average :: average_options where
  "example_average =
     \<lparr>trajectory = ''water.xyz'', avg_custom_cell = True, avg_cell = orthorhombic 6 8 10\<rparr>"

definition example_parse_options ::
  "rdf_args \<Rightarrow> average_options \<times> io_event list \<Rightarrow>
   (error + unit) \<times> average_options \<times> io_event list" where
  "example_parse_options args s = (Inr (), example_average, snd s)"

definition example_args :: "string \<Rightarrow> rdf_args" where
  "example_args sel =
     \<lparr>arg_output = None, arg_max = ''10'', arg_points = ''200'', arg_selection = sel\<rparr>"


definition example_rdf :: rdf where
  "example_rdf =
     \<lparr>rdf_options = \<lparr>rdf_outfile = [], selection = ''all'', npoints = 2, rmax = 2\<rparr>,
      rdf_selection = sel_all\<rparr>"

definition example_rdf_pairs :: rdf where
  "example_rdf_pairs =
     \<lparr>rdf_options = \<lparr>rdf_outfile = [], selection = ''pairs: all'', npoints = 2, rmax = 2\<rparr>,
      rdf_selection = sel_pairs\<rparr>"

text \<open>
  \<open>std::stod\<close> and \<open>std::stol\<close> on the strings of these command lines: \<open>10\<close> and \<open>200\<close>
  are read, and \<open>abc\<close> starts with no number, for which both throw
  \<open>std::invalid_argument\<close> with their name as message. The two functions below are not
  used on any other string.
\<close>

definition example_stod :: "string \<Rightarrow> error + real" where
  "example_stod s =
     (if s = ''10'' then Inr 10
      else if s = ''200'' then Inr 200
      else Inl (InvalidArgument ''stod''))"

definition example_stol :: "string \<Rightarrow> error + int" where
  "example_stol s =
     (if s = ''10'' then Inr 10
      else if s = ''200'' then Inr 200
      else Inl (InvalidArgument ''stol''))"

text \<open>
  Instances of the functions of the library: the wrap of a vector into an orthorhombic
  cell (each component \<open>x\<close> becomes \<open>x - round(x / a) * a\<close>, where \<open>round\<close> goes to
  the nearest integer, and away from zero at a half; the vector is left as it is in a
  cell of another shape), and the volume of an orthorhombic cell (0 for the default
  cell).
\<close>

definition round_away :: "real \<Rightarrow> int" where
  "round_away x = (if 0 \<le> x then \<lfloor>x + 1 / 2\<rfloor> else \<lceil>x - 1 / 2\<rceil>)"

definition wrap_length :: "real \<Rightarrow> real \<Rightarrow> real" where
  "wrap_length a x = x - real_of_int (round_away (x / a)) * a"

definition minimum_image :: "unit_cell \<Rightarrow> vector3d \<Rightarrow> vector3d" where
  "minimum_image c v =
     (if shape c = ORTHORHOMBIC
      then (case v of (x, y, z) \<Rightarrow>
              (wrap_length (cell_a c) x, wrap_length (cell_b c) y, wrap_length (cell_c c) z))
      else v)"

definition box_volume :: "unit_cell \<Rightarrow> real" where
  "box_volume c = cell_a c * cell_b c * cell_c c"

text \<open>
  Two atoms at distance 1 in a cubic cell of side 4. Three atoms on the first axis, at
  0, 9 and 2, in a cubic cell of side 10: across the boundary of the cell the first two
  are at distance 1.
\<close>

definition boxed_pair :: frame where
  "boxed_pair =
     \<lparr>positions = [(0, 0, 0), (1, 0, 0)], velocities = None,
      topology = \<lparr>topo_atoms = [''O'', ''O''], bonds = []\<rparr>, cell = orthorhombic 4 4 4\<rparr>"

definition wrapped_trio :: frame where
  "wrapped_trio =
     \<lparr>positions = [(0, 0, 0), (9, 0, 0), (2, 0, 0)], velocities = None,
      topology = \<lparr>topo_atoms = [''O'', ''O'', ''O''], bonds = []\<rparr>,
      cell = orthorhombic 10 10 10\<rparr>"

text \<open>
  For convert: the options before any is parsed, the file \<open>water.xyz\<close> with one frame
  (one atom at (12, 0, 0) in a cubic cell of side 10), and the map that docopt returns
  for the command line \<open>cfiles hbonds water.xyz\<close>, with a value for each name of the
  usage text.
\<close>

definition initial_options :: hbonds_options where
  "initial_options =
     \<lparr>hb_infile = [], hb_outfile = [], hb_input_format = [], hb_output_format = [],
      hb_steps = (0, 0, 1), hb_guess_bonds = False, hb_wrap = False, hb_custom_cell = False,
      hb_cell = default_cell, hb_topology = [], hb_topology_format = []\<rparr>"

definition water_files :: "string \<Rightarrow> frame list option" where
  "water_files path =
     (if path = ''water.xyz'' then Some [one_atom ''O'' 12 (orthorhombic 10 10 10)] else None)"

definition water_args :: docopt_args where
  "water_args =
     map_of
       [(''hbonds'', Bool_value True),
        (''<trajectory>'', String_value ''water.xyz''),
        (''--help'', Bool_value False),
        (''--output'', Empty_value),
        (''--format'', Empty_value),
        (''--topology'', Empty_value),
        (''--topology-format'', Empty_value),
        (''--guess-bonds'', Bool_value False),
        (''--cell'', Empty_value),
        (''--steps'', Empty_value),
        (''--selection'', String_value ''angles: all''),
        (''--parameters'', String_value ''3.0:30.0'')]"

section \<open>Merge: the output frame (claims C4 and C9)\<close>

lemma fold_add_atom:
  "fold (\<lambda>i out. add_atom (f i) (g i) out) is out =
     out\<lparr>positions := positions out @ map g is,
         velocities := map_option (\<lambda>vs. vs @ replicate (length is) (0, 0, 0)) (velocities out),
         topology := (topology out)\<lparr>topo_atoms := topo_atoms (topology out) @ map f is\<rparr>\<rparr>"
proof (induction "is" arbitrary: out)
  case Nil
  show ?case by (cases "velocities out") simp_all
next
  case (Cons i "is")
  have "fold (\<lambda>i out. add_atom (f i) (g i) out) (i # is) out =
        fold (\<lambda>i out. add_atom (f i) (g i) out) is (add_atom (f i) (g i) out)"
    by simp
  also note Cons.IH
  finally show ?case
    by (cases "velocities out") (simp_all add: add_atom_def replicate_app_Cons_same)
qed

lemma copy_atoms_eq:
  "copy_atoms fr out =
     out\<lparr>positions := positions out @ positions fr,
         velocities := map_option (\<lambda>vs. vs @ replicate (frame_size fr) (0, 0, 0)) (velocities out),
         topology := (topology out)\<lparr>topo_atoms := topo_atoms (topology out) @
            map (\<lambda>i. topo_atoms (topology fr) ! i) [0..<frame_size fr]\<rparr>\<rparr>"
  unfolding copy_atoms_def fold_add_atom by (simp add: frame_size_def map_nth)

lemma fold_add_bond:
  "fold (\<lambda>bond out. add_bond (f bond) (g bond) out) bs out =
     out\<lparr>topology := (topology out)\<lparr>bonds := bonds (topology out) @ map (\<lambda>b. (f b, g b)) bs\<rparr>\<rparr>"
  by (induction bs arbitrary: out) (simp_all add: add_bond_def)

lemma copy_bonds_eq:
  "copy_bonds start fr out =
     out\<lparr>topology := (topology out)\<lparr>bonds := bonds (topology out) @
        map (\<lambda>b. (start + fst b, start + snd b)) (bonds (topology fr))\<rparr>\<rparr>"
  unfolding copy_bonds_def by (rule fold_add_bond)

lemma positions_append_frames:
  "positions (append_frames start frs out) = positions out @ concat (map positions frs)"
  by (induction frs arbitrary: start out)
     (simp_all add: copy_bonds_eq copy_velocities_def copy_atoms_eq split: option.split)

lemma cell_append_frames: "cell (append_frames start frs out) = cell out"
  by (induction frs arbitrary: start out)
     (simp_all add: copy_bonds_eq copy_velocities_def copy_atoms_eq split: option.split)

lemma velocities_append_frames:
  "velocities (append_frames start frs out) = None \<longleftrightarrow> velocities out = None"
  by (induction frs arbitrary: start out)
     (simp_all add: copy_bonds_eq copy_velocities_def copy_atoms_eq split: option.split)

lemma topo_atoms_append_frames:
  "topo_atoms (topology (append_frames start frs out)) =
     topo_atoms (topology out) @
     concat (map (\<lambda>fr. map (\<lambda>i. topo_atoms (topology fr) ! i) [0..<frame_size fr]) frs)"
  by (induction frs arbitrary: start out)
     (simp_all add: copy_bonds_eq copy_velocities_def copy_atoms_eq split: option.split)

lemma bonds_append_frames:
  "bonds (topology (append_frames start frs out)) =
     bonds (topology out) @
     concat (map (\<lambda>i. map (translate (start + atom_offset frs i)) (bonds (topology (frs ! i))))
       [0..<length frs])"
proof (induction frs arbitrary: start out)
  case Nil
  show ?case by simp
next
  case (Cons fr frs)
  have upt: "[0..<length (fr # frs)] = 0 # map Suc [0..<length frs]"
    by (simp add: upt_conv_Cons map_Suc_upt del: upt_Suc)
  show ?case
    unfolding upt
    by (simp add: Cons.IH copy_bonds_eq copy_velocities_def copy_atoms_eq atom_offset_def
        translate_def comp_def add.assoc split: option.split)
qed

lemma one_frame_has_velocity_fold:
  "fold (\<lambda>fr b. b \<or> velocities fr \<noteq> None) frs b0 \<longleftrightarrow>
     b0 \<or> (\<exists>fr\<in>set frs. velocities fr \<noteq> None)"
  by (induction frs arbitrary: b0) auto

lemma natoms_fold:
  "fold (\<lambda>fr n. n + frame_size fr) frs n0 = n0 + sum_list (map frame_size frs)"
  by (induction frs arbitrary: n0) simp_all

lemma frame_size_append_frames:
  "frame_size (append_frames start frs out) = frame_size out + sum_list (map frame_size frs)"
  by (induction frs arbitrary: start out)
     (simp_all add: copy_bonds_eq copy_velocities_def copy_atoms_eq frame_size_def
        split: option.split)

lemma frame_size_merge_frames:
  "frame_size (merge_frames frames) = sum_list (map frame_size frames)"
proof -
  have "frame_size empty_frame = 0" "frame_size (add_velocities empty_frame) = 0"
    by (simp_all add: frame_size_def empty_frame_def add_velocities_def)
  then show ?thesis
    by (simp add: merge_frames_def Let_def frame_size_append_frames)
qed

lemma velocities_merge_frames:
  "velocities (merge_frames frames) \<noteq> None \<longleftrightarrow> (\<exists>fr\<in>set frames. velocities fr \<noteq> None)"
proof -
  have "velocities (merge_frames frames) = None \<longleftrightarrow> \<not> one_frame_has_velocity frames"
    by (simp add: merge_frames_def Let_def velocities_append_frames empty_frame_def
        add_velocities_def)
  then show ?thesis
    unfolding one_frame_has_velocity_def one_frame_has_velocity_fold by simp
qed

lemma cell_merge_frames: "cell (merge_frames frames) = default_cell"
  by (simp add: merge_frames_def Let_def cell_append_frames empty_frame_def add_velocities_def)

text \<open>
  Claim C4. The positions of the output frame are those of the current frames, in input
  order, and so are the atoms of the topology (for frames that satisfy the invariant of
  the library); the bonds of the output are the bonds of each input frame, translated by
  the offset of that frame, which is the number of atoms of the frames before it.
\<close>

theorem merge_frames_atoms_and_bonds:
  "positions (merge_frames frames) = concat (map positions frames) \<and>
   ((\<forall>fr\<in>set frames. frame_wf fr) \<longrightarrow>
      topo_atoms (topology (merge_frames frames)) =
        concat (map (\<lambda>fr. topo_atoms (topology fr)) frames)) \<and>
   bonds (topology (merge_frames frames)) =
     concat (map (\<lambda>i. map (translate (atom_offset frames i)) (bonds (topology (frames ! i))))
       [0..<length frames])"
proof (intro conjI impI)
  show "positions (merge_frames frames) = concat (map positions frames)"
    by (simp add: merge_frames_def Let_def positions_append_frames empty_frame_def
        add_velocities_def)
  show "bonds (topology (merge_frames frames)) =
     concat (map (\<lambda>i. map (translate (atom_offset frames i)) (bonds (topology (frames ! i))))
       [0..<length frames])"
    by (simp add: merge_frames_def Let_def bonds_append_frames empty_frame_def
        add_velocities_def)
next
  assume wf: "\<forall>fr\<in>set frames. frame_wf fr"
  have "map (\<lambda>fr. map (\<lambda>i. topo_atoms (topology fr) ! i) [0..<frame_size fr]) frames =
        map (\<lambda>fr. topo_atoms (topology fr)) frames"
  proof (rule map_cong [OF refl])
    fix fr assume "fr \<in> set frames"
    with wf have "frame_size fr = length (topo_atoms (topology fr))"
      by (simp add: frame_wf_def frame_size_def)
    then show "map (\<lambda>i. topo_atoms (topology fr) ! i) [0..<frame_size fr] =
        topo_atoms (topology fr)"
      by (simp add: map_nth)
  qed
  then have "topo_atoms (topology (append_frames 0 frames out)) =
      topo_atoms (topology out) @ concat (map (\<lambda>fr. topo_atoms (topology fr)) frames)" for out
    unfolding topo_atoms_append_frames by (rule arg_cong)
  then show "topo_atoms (topology (merge_frames frames)) =
        concat (map (\<lambda>fr. topo_atoms (topology fr)) frames)"
    by (simp add: merge_frames_def Let_def empty_frame_def add_velocities_def)
qed

text \<open>
  The example of the specification: a frame of 2 atoms with the bond (0, 1) and a frame
  of 3 atoms with the bond (1, 2) give exactly the bonds (0, 1) and (3, 4).
\<close>

theorem merge_frames_atoms_and_bonds_witness:
  "bonds (topology (merge_frames [frame_two, frame_three])) = [(0, 1), (3, 4)] \<and>
   positions (merge_frames [frame_two, frame_three]) =
     [(0, 0, 0), (1, 0, 0), (0, 2, 0), (0, 3, 0), (0, 4, 0)] \<and>
   topo_atoms (topology (merge_frames [frame_two, frame_three])) =
     [''O'', ''H'', ''C'', ''O'', ''O'']"
  using merge_frames_atoms_and_bonds [of "[frame_two, frame_three]"]
  by (simp add: frame_two_def frame_three_def frame_wf_def atom_offset_def translate_def
      frame_size_def)

text \<open>
  Claim C9. The count \<open>natoms\<close> and the size of the output frame are the sum of the sizes
  of the current frames, and the output frame has velocity storage exactly when one of
  the current frames has.
\<close>

theorem merge_frames_size_and_velocities:
  "natoms frames = sum_list (map frame_size frames) \<and>
   frame_size (merge_frames frames) = sum_list (map frame_size frames) \<and>
   (velocities (merge_frames frames) \<noteq> None \<longleftrightarrow>
      (\<exists>fr\<in>set frames. velocities fr \<noteq> None))"
  using natoms_fold [of frames 0] frame_size_merge_frames [of frames]
    velocities_merge_frames [of frames]
  by (simp add: natoms_def)

text \<open>
  Two and three atoms give five, with velocities since the first frame has them; two
  frames without velocities give a frame without.
\<close>

theorem merge_frames_size_and_velocities_witness:
  "frame_size (merge_frames [frame_two, frame_three]) = 5 \<and>
   velocities (merge_frames [frame_two, frame_three]) \<noteq> None \<and>
   frame_size (merge_frames [frame_three, frame_three]) = 6 \<and>
   velocities (merge_frames [frame_three, frame_three]) = None"
  using merge_frames_size_and_velocities [of "[frame_two, frame_three]"]
    merge_frames_size_and_velocities [of "[frame_three, frame_three]"]
  by (simp add: frame_two_def frame_three_def frame_size_def)

section \<open>Merge: the main loop, round by round\<close>

lemma read_frames_char:
  assumes "distinct is" and "\<forall>i\<in>set is. i < length inputs" and "length frames = length inputs"
    and "\<forall>i\<in>set is. step < nsteps (inputs ! i) \<longrightarrow> traj_step (inputs ! i) < nsteps (inputs ! i)"
  shows "read_frames step is (d, inputs, frames, tr) =
     Inr (d \<or> (\<exists>i\<in>set is. step < nsteps (inputs ! i)),
          map (\<lambda>j. if j \<in> set is then advance step (inputs ! j) else inputs ! j) [0..<length inputs],
          map (\<lambda>j. if j \<in> set is \<and> step < nsteps (inputs ! j)
                    then traj_frames (inputs ! j) ! traj_step (inputs ! j) else frames ! j)
            [0..<length inputs],
          tr @ map (Pair step) (filter (\<lambda>i. step < nsteps (inputs ! i)) is))"
  using assms
proof (induction "is" arbitrary: d inputs frames tr)
  case Nil
  then show ?case by (simp add: map_nth) (metis map_nth)
next
  case (Cons i "is")
  from Cons.prems have i: "i < length inputs" "i \<notin> set is" and dist: "distinct is"
    and bound: "\<forall>j\<in>set is. j < length inputs" and len: "length frames = length inputs"
    by simp_all
  show ?case
  proof (cases "step < nsteps (inputs ! i)")
    case False
    have "read_frames step (i # is) (d, inputs, frames, tr) = read_frames step is (d, inputs, frames, tr)"
      using False by simp
    also have "\<dots> = Inr (d \<or> (\<exists>i\<in>set is. step < nsteps (inputs ! i)),
          map (\<lambda>j. if j \<in> set is then advance step (inputs ! j) else inputs ! j) [0..<length inputs],
          map (\<lambda>j. if j \<in> set is \<and> step < nsteps (inputs ! j)
                    then traj_frames (inputs ! j) ! traj_step (inputs ! j) else frames ! j)
            [0..<length inputs],
          tr @ map (Pair step) (filter (\<lambda>i. step < nsteps (inputs ! i)) is))"
      using Cons.prems by (intro Cons.IH) simp_all
    finally show ?thesis
      using False by (auto simp: advance_def)
  next
    case True
    define t where "t = (inputs ! i)\<lparr>traj_step := Suc (traj_step (inputs ! i))\<rparr>"
    define fr where "fr = traj_frames (inputs ! i) ! traj_step (inputs ! i)"
    have rd: "read (inputs ! i) = Inr (fr, t)"
      using True Cons.prems(4) by (simp add: read_def t_def fr_def)
    have nth_other: "\<And>j. j \<in> set is \<Longrightarrow> inputs[i := t] ! j = inputs ! j"
      using i by (metis nth_list_update_neq)
    have "read_frames step (i # is) (d, inputs, frames, tr) =
          read_frames step is (True, inputs[i := t], frames[i := fr], tr @ [(step, i)])"
      using True rd by simp
    also have "\<dots> = Inr (True \<or> (\<exists>j\<in>set is. step < nsteps (inputs[i := t] ! j)),
          map (\<lambda>j. if j \<in> set is then advance step (inputs[i := t] ! j) else inputs[i := t] ! j)
            [0..<length (inputs[i := t])],
          map (\<lambda>j. if j \<in> set is \<and> step < nsteps (inputs[i := t] ! j)
                    then traj_frames (inputs[i := t] ! j) ! traj_step (inputs[i := t] ! j)
                    else frames[i := fr] ! j)
            [0..<length (inputs[i := t])],
          (tr @ [(step, i)]) @ map (Pair step) (filter (\<lambda>j. step < nsteps (inputs[i := t] ! j)) is))"
      using Cons.prems nth_other by (intro Cons.IH) simp_all
    finally show ?thesis
      using True i len nth_other
      by (auto simp: advance_def t_def fr_def nth_list_update cong: filter_cong)
  qed
qed

lemma nsteps_traj_step [simp]: "nsteps (t\<lparr>traj_step := n\<rparr>) = nsteps t"
  by (simp add: nsteps_def)

lemma less_max_nsteps_iff:
  "k < max_nsteps inputs \<longleftrightarrow> (\<exists>i<length inputs. k < nsteps (inputs ! i))"
proof -
  have "k < max_nsteps inputs \<longleftrightarrow> (\<exists>a\<in>insert 0 (set (map nsteps inputs)). k < a)"
    unfolding max_nsteps_def by (rule Max_gr_iff) simp_all
  also have "\<dots> \<longleftrightarrow> (\<exists>i<length inputs. k < nsteps (inputs ! i))"
    by (auto simp: in_set_conv_nth) (metis nth_mem)
  finally show ?thesis .
qed

lemma advance_inputs_at:
  "advance k (t\<lparr>traj_step := min k (nsteps t)\<rparr>) = t\<lparr>traj_step := min (Suc k) (nsteps t)\<rparr>"
  by (simp add: advance_def min_def)

lemma current_frame_keep:
  "\<not> k < nsteps t \<Longrightarrow>
   (case k of 0 \<Rightarrow> empty_frame | Suc j \<Rightarrow> current_frame t j) = current_frame t k"
proof (cases k)
  case 0
  assume "\<not> k < nsteps t"
  with 0 show ?thesis by (simp add: current_frame_def)
next
  case (Suc j)
  assume a: "\<not> k < nsteps t"
  show ?thesis
  proof (cases "j < nsteps t")
    case True
    with a Suc have "nsteps t = Suc j" by simp
    then have "traj_frames t \<noteq> []" "length (traj_frames t) - 1 = j"
      by (auto simp: nsteps_def)
    then have "last (traj_frames t) = traj_frames t ! j"
      by (simp add: last_conv_nth)
    with True a Suc show ?thesis by (simp add: current_frame_def)
  next
    case False
    with a Suc show ?thesis by (simp add: current_frame_def)
  qed
qed

lemma read_round:
  "read_frames k [0..<length inputs] (False, inputs_at inputs k, slots_before inputs k, tr) =
     Inr (k < max_nsteps inputs, inputs_at inputs (Suc k), current_frames inputs k,
          tr @ reads_at inputs k)"
proof -
  let ?ins = "inputs_at inputs k" and ?frs = "slots_before inputs k"
  have len: "length ?ins = length inputs" "length ?frs = length inputs"
    by (simp_all add: inputs_at_def slots_before_def current_frames_def split: nat.split)
  have nth_ins: "\<And>i. i < length inputs \<Longrightarrow> ?ins ! i = (inputs ! i)\<lparr>traj_step := min k (nsteps (inputs ! i))\<rparr>"
    by (simp add: inputs_at_def)
  have nth_frs: "\<And>i. i < length inputs \<Longrightarrow>
      ?frs ! i = (case k of 0 \<Rightarrow> empty_frame | Suc j \<Rightarrow> current_frame (inputs ! i) j)"
    by (simp add: slots_before_def current_frames_def split: nat.split)
  have "read_frames k [0..<length ?ins] (False, ?ins, ?frs, tr) =
     Inr (False \<or> (\<exists>i\<in>set [0..<length ?ins]. k < nsteps (?ins ! i)),
          map (\<lambda>j. if j \<in> set [0..<length ?ins] then advance k (?ins ! j) else ?ins ! j)
            [0..<length ?ins],
          map (\<lambda>j. if j \<in> set [0..<length ?ins] \<and> k < nsteps (?ins ! j)
                    then traj_frames (?ins ! j) ! traj_step (?ins ! j) else ?frs ! j)
            [0..<length ?ins],
          tr @ map (Pair k) (filter (\<lambda>i. k < nsteps (?ins ! i)) [0..<length ?ins]))"
    by (rule read_frames_char) (simp_all add: len nth_ins)
  moreover have "(\<exists>i\<in>set [0..<length ?ins]. k < nsteps (?ins ! i)) \<longleftrightarrow> k < max_nsteps inputs"
    by (auto simp: len nth_ins less_max_nsteps_iff)
  moreover have "map (\<lambda>j. if j \<in> set [0..<length ?ins] then advance k (?ins ! j) else ?ins ! j)
            [0..<length ?ins] = inputs_at inputs (Suc k)"
    by (rule nth_equalityI) (simp_all add: len nth_ins advance_inputs_at inputs_at_def)
  moreover have "map (\<lambda>j. if j \<in> set [0..<length ?ins] \<and> k < nsteps (?ins ! j)
                    then traj_frames (?ins ! j) ! traj_step (?ins ! j) else ?frs ! j)
            [0..<length ?ins] = current_frames inputs k"
  proof (rule nth_equalityI)
    show "length (map (\<lambda>j. if j \<in> set [0..<length ?ins] \<and> k < nsteps (?ins ! j)
                    then traj_frames (?ins ! j) ! traj_step (?ins ! j) else ?frs ! j)
            [0..<length ?ins]) = length (current_frames inputs k)"
      by (simp add: len current_frames_def)
  next
    fix i
    assume "i < length (map (\<lambda>j. if j \<in> set [0..<length ?ins] \<and> k < nsteps (?ins ! j)
                    then traj_frames (?ins ! j) ! traj_step (?ins ! j) else ?frs ! j)
            [0..<length ?ins])"
    then have i: "i < length inputs" by (simp add: len)
    show "map (\<lambda>j. if j \<in> set [0..<length ?ins] \<and> k < nsteps (?ins ! j)
                    then traj_frames (?ins ! j) ! traj_step (?ins ! j) else ?frs ! j)
            [0..<length ?ins] ! i = current_frames inputs k ! i"
    proof (cases "k < nsteps (inputs ! i)")
      case True
      then show ?thesis
        using i by (simp add: len nth_ins current_frames_def current_frame_def)
    next
      case False
      then show ?thesis
        using i current_frame_keep [OF False]
        by (simp add: len nth_ins nth_frs current_frames_def)
    qed
  qed
  moreover have "map (Pair k) (filter (\<lambda>i. k < nsteps (?ins ! i)) [0..<length ?ins]) =
      reads_at inputs k"
    unfolding reads_at_def len
    by (intro arg_cong [where f = "map (Pair k)"] filter_cong) (simp_all add: nth_ins)
  ultimately show ?thesis
    by (simp add: len)
qed

lemma compare_cells_error: "compare_cells reference frs = Inl e \<Longrightarrow> e = cell_mismatch"
  by (induction frs) (auto simp: cell_mismatch_def split: if_splits)

lemma check_unit_cells_cases:
  "check_unit_cells options frs = Inr () \<or> check_unit_cells options frs = Inl cell_mismatch"
proof (cases "check_unit_cells options frs")
  case (Inl e)
  then show ?thesis
    by (auto simp: check_unit_cells_def split: if_splits dest: compare_cells_error)
next
  case (Inr u)
  then show ?thesis by simp
qed

lemma reads_at_max: "\<not> k < max_nsteps inputs \<Longrightarrow> reads_at inputs k = []"
  by (auto simp: reads_at_def less_max_nsteps_iff filter_empty_conv)

lemma length_inputs_at [simp]: "length (inputs_at inputs k) = length inputs"
  by (simp add: inputs_at_def)

lemma slots_before_Suc: "slots_before inputs (Suc k) = current_frames inputs k"
  by (simp add: slots_before_def)

lemma merge_loop_char:
  fixes options :: merge_options and inputs :: "trajectory list"
  defines "ok \<equiv> \<lambda>j. check_unit_cells options (current_frames inputs j) = Inr ()"
  assumes "k \<le> max_nsteps inputs"
  shows "merge_loop options k (inputs_at inputs k) (slots_before inputs k) out tr =
     (if k + length (takeWhile ok [k..<max_nsteps inputs]) = max_nsteps inputs
        then Inr 0 else Inl cell_mismatch,
      out\<lparr>written := written out @
        map (\<lambda>j. merge_frames (current_frames inputs j))
          [k..<k + length (takeWhile ok [k..<max_nsteps inputs])]\<rparr>,
      tr @ concat (map (reads_at inputs)
        [k..<Suc (k + length (takeWhile ok [k..<max_nsteps inputs]))]))"
  using assms(2)
proof (induction "max_nsteps inputs - k" arbitrary: k out tr)
  case 0
  then have k: "k = max_nsteps inputs" by simp
  have "merge_loop options k (inputs_at inputs k) (slots_before inputs k) out tr =
      (Inr 0, out, tr @ reads_at inputs k)"
    by (subst merge_loop.simps) (simp add: read_round k)
  then show ?case
    by (simp add: k reads_at_max)
next
  case (Suc n)
  then have lt: "k < max_nsteps inputs" by simp
  have upt: "[k..<max_nsteps inputs] = k # [Suc k..<max_nsteps inputs]"
    using lt by (simp add: upt_conv_Cons)
  show ?case
  proof (cases "ok k")
    case False
    then have "check_unit_cells options (current_frames inputs k) = Inl cell_mismatch"
      using check_unit_cells_cases [of options "current_frames inputs k"] by (simp add: ok_def)
    then have "merge_loop options k (inputs_at inputs k) (slots_before inputs k) out tr =
        (Inl cell_mismatch, out, tr @ reads_at inputs k)"
      using lt by (subst merge_loop.simps) (simp add: read_round)
    then show ?thesis
      using False lt by (simp add: upt)
  next
    case True
    let ?out = "write_frame (merge_frames (current_frames inputs k)) out"
    let ?s = "Suc k + length (takeWhile ok [Suc k..<max_nsteps inputs])"
    have "merge_loop options k (inputs_at inputs k) (slots_before inputs k) out tr =
        merge_loop options (Suc k) (inputs_at inputs (Suc k)) (slots_before inputs (Suc k))
          ?out (tr @ reads_at inputs k)"
      using lt True
      by (subst merge_loop.simps) (simp add: read_round ok_def slots_before_Suc)
    also have "\<dots> = (if ?s = max_nsteps inputs then Inr 0 else Inl cell_mismatch,
        ?out\<lparr>written := written ?out @
          map (\<lambda>j. merge_frames (current_frames inputs j)) [Suc k..<?s]\<rparr>,
        (tr @ reads_at inputs k) @ concat (map (reads_at inputs) [Suc k..<Suc ?s]))"
      using Suc.hyps(2) lt by (intro Suc.hyps(1)) simp_all
    finally have step: "merge_loop options k (inputs_at inputs k) (slots_before inputs k) out tr =
        (if ?s = max_nsteps inputs then Inr 0 else Inl cell_mismatch,
        ?out\<lparr>written := written ?out @
          map (\<lambda>j. merge_frames (current_frames inputs j)) [Suc k..<?s]\<rparr>,
        (tr @ reads_at inputs k) @ concat (map (reads_at inputs) [Suc k..<Suc ?s]))" .
    have s: "k + length (takeWhile ok [k..<max_nsteps inputs]) = ?s"
      using True by (simp add: upt)
    have u1: "[k..<?s] = k # [Suc k..<?s]" and u2: "[k..<Suc ?s] = k # [Suc k..<Suc ?s]"
      by (simp_all add: upt_conv_Cons del: upt_Suc)
    show ?thesis
      unfolding s step u1 u2 by (simp add: write_frame_def del: upt_Suc)
  qed
qed

lemma inputs_at_opened: "inputs_at (map opened infiles) 0 = map opened infiles"
  by (simp add: inputs_at_def opened_def)

lemma current_frame_opened: "current_frame (opened file) k = held_frame file k"
  by (simp add: current_frame_def held_frame_def opened_def nsteps_def)

lemma current_frames_opened: "current_frames (map opened infiles) k = held_frames infiles k"
  by (simp add: current_frames_def held_frames_def current_frame_opened comp_def)

lemma max_nsteps_opened: "max_nsteps (map opened infiles) = longest_input infiles"
proof -
  have "map nsteps (map opened infiles) = map length infiles"
    by (simp add: nsteps_def opened_def comp_def)
  then show ?thesis
    by (simp only: max_nsteps_def longest_input_def)
qed

lemma merge_run_char:
  fixes infiles :: "frame list list"
  defines "inputs \<equiv> map opened infiles"
  shows "merge_run options infiles =
     (if first_mismatch options inputs = longest_input infiles then Inr 0 else Inl cell_mismatch,
      \<lparr>custom_cell_of = (if custom_cell options then Some (forced_cell options) else None),
       written = map (\<lambda>k. merge_frames (held_frames infiles k))
                   [0..<first_mismatch options inputs]\<rparr>,
      concat (map (reads_at inputs) [0..<Suc (first_mismatch options inputs)]))"
proof -
  have "merge_loop options 0 (inputs_at inputs 0) (slots_before inputs 0) out [] =
     (if 0 + first_mismatch options inputs = max_nsteps inputs then Inr 0 else Inl cell_mismatch,
      out\<lparr>written := written out @
        map (\<lambda>j. merge_frames (current_frames inputs j)) [0..<0 + first_mismatch options inputs]\<rparr>,
      [] @ concat (map (reads_at inputs) [0..<Suc (0 + first_mismatch options inputs)]))" for out
    unfolding first_mismatch_def by (rule merge_loop_char) simp
  then have "merge_loop options 0 inputs (replicate (length inputs) empty_frame) out [] =
     (if first_mismatch options inputs = longest_input infiles then Inr 0 else Inl cell_mismatch,
      out\<lparr>written := written out @
        map (\<lambda>j. merge_frames (held_frames infiles j)) [0..<first_mismatch options inputs]\<rparr>,
      concat (map (reads_at inputs) [0..<Suc (first_mismatch options inputs)]))" for out
    unfolding inputs_def
    by (simp add: inputs_at_opened slots_before_def current_frames_opened max_nsteps_opened
        del: upt_Suc)
  then show ?thesis
    by (simp add: merge_run_def Let_def set_cell_def inputs_def del: upt_Suc)
qed

lemma first_mismatch_all:
  "first_mismatch options inputs = max_nsteps inputs \<longleftrightarrow>
     (\<forall>k<max_nsteps inputs. check_unit_cells options (current_frames inputs k) = Inr ())"
proof -
  let ?ok = "\<lambda>k. check_unit_cells options (current_frames inputs k) = Inr ()"
  have "length (takeWhile ?ok [0..<max_nsteps inputs]) = length [0..<max_nsteps inputs] \<longleftrightarrow>
        takeWhile ?ok [0..<max_nsteps inputs] = [0..<max_nsteps inputs]"
    by (metis takeWhile_eq_take take_all_iff order_refl)
  then show ?thesis
    by (auto simp: first_mismatch_def takeWhile_eq_all_conv)
qed

lemma set_reads:
  "(k, i) \<in> set (concat (map (reads_at inputs) [0..<Suc (max_nsteps inputs)])) \<longleftrightarrow>
     i < length inputs \<and> k < nsteps (inputs ! i)"
proof -
  have "i < length inputs \<Longrightarrow> k < nsteps (inputs ! i) \<Longrightarrow> k < Suc (max_nsteps inputs)"
    using less_max_nsteps [of i inputs k] by simp
  then show ?thesis
    by (auto simp: reads_at_def simp del: upt_Suc)
qed

lemma distinct_reads: "distinct (concat (map (reads_at inputs) [0..<n]))"
proof (induction n)
  case 0
  show ?case by simp
next
  case (Suc n)
  have "distinct (reads_at inputs n)"
    by (simp add: reads_at_def distinct_map inj_on_def)
  moreover have "set (concat (map (reads_at inputs) [0..<n])) \<inter> set (reads_at inputs n) = {}"
    by (auto simp: reads_at_def)
  ultimately show ?case
    using Suc by simp
qed

lemma first_mismatch_files:
  "first_mismatch options (map opened infiles) = longest_input infiles \<longleftrightarrow>
     (\<forall>k<longest_input infiles. check_unit_cells options (held_frames infiles k) = Inr ())"
  using first_mismatch_all [of options "map opened infiles"]
  by (simp add: max_nsteps_opened current_frames_opened)

lemma set_reads_files:
  "(k, i) \<in> set (concat (map (reads_at (map opened infiles)) [0..<Suc (longest_input infiles)])) \<longleftrightarrow>
     i < length infiles \<and> k < length (infiles ! i)"
proof -
  have "i < length infiles \<Longrightarrow> nsteps (map opened infiles ! i) = length (infiles ! i)"
    by (simp add: nsteps_def opened_def)
  then show ?thesis
    using set_reads [of k i "map opened infiles"]
    by (auto simp: max_nsteps_opened)
qed

lemma find_reference_filter:
  "find_reference reference frames =
     (case filter (\<lambda>fr. shape (cell fr) \<noteq> INFINITE) frames of
        [] \<Rightarrow> reference | fr # _ \<Rightarrow> cell fr)"
  by (induction frames) simp_all

lemma compare_cells_char:
  "compare_cells reference frames =
     (if \<exists>fr\<in>set frames. shape (cell fr) \<noteq> INFINITE \<and> cell fr \<noteq> reference
      then Inl cell_mismatch else Inr ())"
  by (induction frames) (auto simp: cell_mismatch_def)

lemma held_frame_in: "held_frame file k \<in> insert empty_frame (set file)"
  by (auto simp: held_frame_def)

lemma check_unit_cells_infinite:
  "\<forall>fr\<in>set frames. shape (cell fr) = INFINITE \<Longrightarrow> check_unit_cells options frames = Inr ()"
  by (simp add: check_unit_cells_def compare_cells_char)

section \<open>Merge: the steps of the output (claim C2)\<close>

text \<open>
  Claim C2, as amended. A run with a forced cell always returns 0. For every run that
  the comparison of the unit cells does not abort: it returns 0; input \<open>i\<close> is read at
  step \<open>k\<close> exactly when \<open>k\<close> is below its number of steps, and then once; the output has
  exactly as many steps as the longest input; and output step \<open>k\<close> is built from frame \<open>k\<close> of every input
  that still has one and from the last frame of every exhausted input (the empty default
  frame for an input without any step).
\<close>

theorem merge_run_padding:
  "(custom_cell options \<longrightarrow> fst (merge_run options infiles) = Inr 0) \<and>
   (fst (merge_run options infiles) \<noteq> Inl cell_mismatch \<longrightarrow>
      fst (merge_run options infiles) = Inr 0 \<and>
      (\<forall>k i. (k, i) \<in> set (snd (snd (merge_run options infiles))) \<longleftrightarrow>
             i < length infiles \<and> k < length (infiles ! i)) \<and>
      distinct (snd (snd (merge_run options infiles))) \<and>
      length (written (fst (snd (merge_run options infiles)))) = longest_input infiles \<and>
      (\<forall>k<longest_input infiles.
         written (fst (snd (merge_run options infiles))) ! k =
           merge_frames (map (\<lambda>file. held_frame file k) infiles)))"
proof (intro conjI impI)
  assume "custom_cell options"
  then show "fst (merge_run options infiles) = Inr 0"
    by (simp add: merge_run_char first_mismatch_files check_unit_cells_def)
next
  assume "fst (merge_run options infiles) \<noteq> Inl cell_mismatch"
  then have fm: "first_mismatch options (map opened infiles) = longest_input infiles"
    by (simp add: merge_run_char split: if_splits)
  show "fst (merge_run options infiles) = Inr 0"
    by (simp add: merge_run_char fm)
  show "\<forall>k i. (k, i) \<in> set (snd (snd (merge_run options infiles))) \<longleftrightarrow>
             i < length infiles \<and> k < length (infiles ! i)"
    unfolding merge_run_char fm snd_conv by (simp only: set_reads_files) simp
  show "distinct (snd (snd (merge_run options infiles)))"
    unfolding merge_run_char snd_conv by (rule distinct_reads)
  show "length (written (fst (snd (merge_run options infiles)))) = longest_input infiles"
    by (simp add: merge_run_char fm)
  show "\<forall>k<longest_input infiles.
         written (fst (snd (merge_run options infiles))) ! k =
           merge_frames (map (\<lambda>file. held_frame file k) infiles)"
    by (simp add: merge_run_char fm held_frames_def)
qed

lemma longest_AB: "longest_input [file_A, file_B] = 5"
  by (simp add: longest_input_def file_A_def file_B_def)

lemma run_AB_ok: "fst (merge_run no_cell [file_A, file_B]) \<noteq> Inl cell_mismatch"
proof -
  have "shape (cell (held_frame fl k)) = INFINITE" if "fl = file_A \<or> fl = file_B" for fl k
    using held_frame_in [of fl k] that
    by (auto simp: file_A_def file_B_def one_atom_def empty_frame_def default_cell_def)
  then have "check_unit_cells no_cell (held_frames [file_A, file_B] k) = Inr ()" for k
    by (intro check_unit_cells_infinite) (simp add: held_frames_def)
  then have "first_mismatch no_cell (map opened [file_A, file_B]) =
      longest_input [file_A, file_B]"
    by (simp only: first_mismatch_files) simp
  then show ?thesis
    by (simp add: merge_run_char)
qed

text \<open>
  The example of the specification: \<open>file_A\<close> has 3 steps, \<open>file_B\<close> has 5, all cells are
  infinite and none is forced. The output has 5 steps; steps 3 and 4 repeat the last
  frame of \<open>file_A\<close>, which is not read at step 3 while \<open>file_B\<close> is.
\<close>

theorem merge_run_padding_witness:
  "length (written (fst (snd (merge_run no_cell [file_A, file_B])))) = 5 \<and>
   written (fst (snd (merge_run no_cell [file_A, file_B]))) ! 3 =
     merge_frames [one_atom ''A'' 2 default_cell, one_atom ''B'' 13 default_cell] \<and>
   written (fst (snd (merge_run no_cell [file_A, file_B]))) ! 4 =
     merge_frames [one_atom ''A'' 2 default_cell, one_atom ''B'' 14 default_cell] \<and>
   ((3, 0) \<notin> set (snd (snd (merge_run no_cell [file_A, file_B])))) \<and>
   ((3, 1) \<in> set (snd (snd (merge_run no_cell [file_A, file_B]))))"
proof -
  note run = merge_run_padding [of no_cell "[file_A, file_B]", THEN conjunct2, rule_format,
      OF run_AB_ok]
  have len: "length (written (fst (snd (merge_run no_cell [file_A, file_B])))) = 5"
    using run by (simp add: longest_AB)
  have nth: "k < 5 \<Longrightarrow> written (fst (snd (merge_run no_cell [file_A, file_B]))) ! k =
      merge_frames (map (\<lambda>file. held_frame file k) [file_A, file_B])" for k
    using run by (simp add: longest_AB)
  have rd: "(k, i) \<in> set (snd (snd (merge_run no_cell [file_A, file_B]))) \<longleftrightarrow>
      i < length [file_A, file_B] \<and> k < length ([file_A, file_B] ! i)" for k i
    using run by blast
  show ?thesis
    using len nth [of 3] nth [of 4] rd [of 3 0] rd [of 3 1]
    by (simp add: held_frame_def file_A_def file_B_def)
qed

lemma longest_PQ: "longest_input [file_P, file_Q] = 1"
  by (simp add: longest_input_def file_P_def file_Q_def)

lemma check_PQ: "check_unit_cells no_cell (held_frames [file_P, file_Q] 0) = Inl cell_mismatch"
  by (simp add: check_unit_cells_def compare_cells_char held_frames_def held_frame_def
      file_P_def file_Q_def one_atom_def orthorhombic_def no_cell_def)

lemma run_PQ: "merge_run no_cell [file_P, file_Q] =
   (Inl cell_mismatch, \<lparr>custom_cell_of = None, written = []\<rparr>, [(0, 0), (0, 1)])"
proof -
  have f: "first_mismatch no_cell (map opened [file_P, file_Q]) = 0"
    unfolding first_mismatch_def max_nsteps_opened current_frames_opened longest_PQ
    using check_PQ by simp
  show ?thesis
    unfolding merge_run_char f longest_PQ
    by (simp add: no_cell_def reads_at_def nsteps_def file_P_def file_Q_def opened_def)
qed

text \<open>
  Claim C2 as it is written fails when the cells do not match: \<open>file_P\<close> and \<open>file_Q\<close>
  have one step each, with different orthorhombic cells, and no cell is forced. The run
  throws at step 0 and the output has no step, where the longest input has one.
\<close>

theorem merge_run_steps_counterexample:
  "length (written (fst (snd (merge_run no_cell [file_P, file_Q])))) = 0 \<and>
   Max {length file_P, length file_Q} = 1 \<and>
   fst (merge_run no_cell [file_P, file_Q]) = Inl cell_mismatch"
  by (simp add: run_PQ) (simp add: file_P_def file_Q_def)

section \<open>Merge: the check of the unit cells (claim C3)\<close>

text \<open>
  Claim C3. Without a forced cell the reference is the cell of the first current frame
  whose shape is not infinite (the default cell if there is none), and the check throws
  the error of cfiles, whose message asks for the \<open>--cell\<close> argument, exactly when some
  frame has a cell that is not infinite and differs from the reference; frames with an
  infinite cell are never compared, and with a forced cell nothing is checked. A run
  fails with that error exactly when the check fails on the current frames of one of its
  steps.
\<close>

theorem check_unit_cells_reference:
  "find_reference default_cell frames =
     (case filter (\<lambda>fr. shape (cell fr) \<noteq> INFINITE) frames of
        [] \<Rightarrow> default_cell | fr # _ \<Rightarrow> cell fr) \<and>
   check_unit_cells options frames =
     (if \<not> custom_cell options \<and>
         (\<exists>fr\<in>set frames. shape (cell fr) \<noteq> INFINITE \<and>
            cell fr \<noteq> find_reference default_cell frames)
      then Inl cell_mismatch else Inr ()) \<and>
   (fst (merge_run options infiles) = Inl cell_mismatch \<longleftrightarrow>
      (\<exists>k<longest_input infiles.
         check_unit_cells options (map (\<lambda>file. held_frame file k) infiles) =
           Inl cell_mismatch))"
proof (intro conjI)
  show "find_reference default_cell frames =
     (case filter (\<lambda>fr. shape (cell fr) \<noteq> INFINITE) frames of
        [] \<Rightarrow> default_cell | fr # _ \<Rightarrow> cell fr)"
    by (rule find_reference_filter)
  show "check_unit_cells options frames =
     (if \<not> custom_cell options \<and>
         (\<exists>fr\<in>set frames. shape (cell fr) \<noteq> INFINITE \<and>
            cell fr \<noteq> find_reference default_cell frames)
      then Inl cell_mismatch else Inr ())"
    by (simp add: check_unit_cells_def compare_cells_char)
  have "fst (merge_run options infiles) = Inl cell_mismatch \<longleftrightarrow>
      first_mismatch options (map opened infiles) \<noteq> longest_input infiles"
    by (simp add: merge_run_char)
  also have "\<dots> \<longleftrightarrow> (\<exists>k<longest_input infiles.
      check_unit_cells options (held_frames infiles k) \<noteq> Inr ())"
    by (simp add: first_mismatch_files)
  also have "\<dots> \<longleftrightarrow> (\<exists>k<longest_input infiles.
      check_unit_cells options (held_frames infiles k) = Inl cell_mismatch)"
    using check_unit_cells_cases [of options] by (metis Inl_Inr_False)
  finally show "fst (merge_run options infiles) = Inl cell_mismatch \<longleftrightarrow>
      (\<exists>k<longest_input infiles.
         check_unit_cells options (map (\<lambda>file. held_frame file k) infiles) =
           Inl cell_mismatch)"
    by (simp add: held_frames_def)
qed

text \<open>
  An infinite cell followed by two different orthorhombic cells: the reference is the
  first orthorhombic cell and the check fails; with equal cells it passes, and with a
  forced cell it is skipped. The run on \<open>file_P\<close> and \<open>file_Q\<close> fails.
\<close>

theorem check_unit_cells_reference_witness:
  "find_reference default_cell
     [one_atom ''A'' 0 default_cell, one_atom ''P'' 0 (orthorhombic 10 10 10),
      one_atom ''Q'' 0 (orthorhombic 20 20 20)] = orthorhombic 10 10 10 \<and>
   check_unit_cells no_cell
     [one_atom ''A'' 0 default_cell, one_atom ''P'' 0 (orthorhombic 10 10 10),
      one_atom ''Q'' 0 (orthorhombic 20 20 20)] = Inl cell_mismatch \<and>
   check_unit_cells no_cell
     [one_atom ''A'' 0 default_cell, one_atom ''P'' 0 (orthorhombic 10 10 10),
      one_atom ''P'' 1 (orthorhombic 10 10 10)] = Inr () \<and>
   check_unit_cells with_cell
     [one_atom ''A'' 0 default_cell, one_atom ''P'' 0 (orthorhombic 10 10 10),
      one_atom ''Q'' 0 (orthorhombic 20 20 20)] = Inr () \<and>
   fst (merge_run no_cell [file_P, file_Q]) = Inl cell_mismatch"
proof -
  let ?frs = "[one_atom ''A'' 0 default_cell, one_atom ''P'' 0 (orthorhombic 10 10 10),
      one_atom ''Q'' 0 (orthorhombic 20 20 20)]"
  let ?same = "[one_atom ''A'' 0 default_cell, one_atom ''P'' 0 (orthorhombic 10 10 10),
      one_atom ''P'' 1 (orthorhombic 10 10 10)]"
  have shapes: "shape default_cell = INFINITE" "shape (orthorhombic 10 10 10) = ORTHORHOMBIC"
    "shape (orthorhombic 20 20 20) = ORTHORHOMBIC" "orthorhombic 20 20 20 \<noteq> orthorhombic 10 10 10"
    by (simp_all add: default_cell_def orthorhombic_def)
  have cells: "cell (one_atom a x c) = c" for a x c
    by (simp add: one_atom_def)
  have ref: "find_reference default_cell ?frs = orthorhombic 10 10 10"
    using check_unit_cells_reference [of ?frs no_cell "[]"] by (simp add: cells shapes)
  have r2: "find_reference default_cell ?same = orthorhombic 10 10 10"
    using check_unit_cells_reference [of ?same no_cell "[]"] by (simp add: cells shapes)
  have "check_unit_cells no_cell ?frs = Inl cell_mismatch"
    using check_unit_cells_reference [of ?frs no_cell "[]"]
    by (simp add: ref cells shapes no_cell_def)
  moreover have "check_unit_cells no_cell ?same = Inr ()"
    using check_unit_cells_reference [of ?same no_cell "[]"]
    by (simp add: r2 cells shapes no_cell_def)
  moreover have "check_unit_cells with_cell ?frs = Inr ()"
    using check_unit_cells_reference [of ?frs with_cell "[]"]
    by (simp add: with_cell_def)
  moreover have "fst (merge_run no_cell [file_P, file_Q]) = Inl cell_mismatch"
  proof -
    have "check_unit_cells no_cell (map (\<lambda>file. held_frame file 0) [file_P, file_Q]) =
        Inl cell_mismatch"
      using check_unit_cells_reference
        [of "map (\<lambda>file. held_frame file 0) [file_P, file_Q]" no_cell "[]"]
      by (simp add: held_frame_def file_P_def file_Q_def cells shapes no_cell_def)
    then show ?thesis
      using check_unit_cells_reference [of "[]" no_cell "[file_P, file_Q]"]
      by (auto simp: longest_PQ)
  qed
  ultimately show ?thesis
    using ref by simp
qed

section \<open>Merge: the cell of the frames written (claim C10)\<close>

lemma merge_loop_written:
  "merge_loop options step inputs frames out tr = (r, out', tr') \<Longrightarrow>
   custom_cell_of out' = custom_cell_of out \<and>
   (\<forall>fr\<in>set (written out'). fr \<in> set (written out) \<or> cell fr = default_cell)"
proof (induction options step inputs frames out tr rule: merge_loop.induct)
  case (1 options step inputs frames outfile tr)
  show ?case
  proof (cases "read_frames step [0..<length inputs] (False, inputs, frames, tr)")
    case (Inl e)
    with "1.prems" show ?thesis
      by (subst (asm) merge_loop.simps) auto
  next
    case (Inr s)
    obtain did inputs' frames' tr2 where s: "s = (did, inputs', frames', tr2)"
      by (cases s) auto
    show ?thesis
    proof (cases "did \<and> (\<exists>u. check_unit_cells options frames' = Inr u)")
      case False
      with "1.prems" Inr s show ?thesis
        by (subst (asm) merge_loop.simps) (auto split: sum.splits if_splits)
    next
      case True
      then obtain u where u: "check_unit_cells options frames' = Inr u" and did: did
        by auto
      have rec: "merge_loop options (Suc step) inputs' frames'
          (write_frame (merge_frames frames') outfile) tr2 = (r, out', tr')"
        using "1.prems" Inr s u did by (subst (asm) merge_loop.simps) simp
      have "custom_cell_of out' = custom_cell_of (write_frame (merge_frames frames') outfile) \<and>
        (\<forall>fr\<in>set (written out').
           fr \<in> set (written (write_frame (merge_frames frames') outfile)) \<or>
           cell fr = default_cell)"
        using Inr s did u rec by (intro "1.IH" [of s did _ inputs' _ frames' tr2 u]) simp_all
      then show ?thesis
        by (auto simp: write_frame_def cell_merge_frames)
    qed
  qed
qed

text \<open>
  Claim C10. The forced cell, when there is one, is set once on the output handle and
  nowhere else; every frame handed to \<open>write\<close> has the default, infinite cell of a
  freshly constructed frame, whatever the cells of the inputs (and the reference found
  by the check) are.
\<close>

theorem merge_output_cell:
  "custom_cell_of (fst (snd (merge_run options infiles))) =
     (if custom_cell options then Some (forced_cell options) else None) \<and>
   (\<forall>fr\<in>set (written (fst (snd (merge_run options infiles)))).
      cell fr = default_cell \<and> shape (cell fr) = INFINITE) \<and>
   cell (merge_frames frames) = cell empty_frame"
proof -
  obtain r out' tr' where run: "merge_run options infiles = (r, out', tr')"
    by (cases "merge_run options infiles") auto
  then have "merge_loop options 0 (map opened infiles)
      (replicate (length (map opened infiles)) empty_frame)
      (if custom_cell options then set_cell (forced_cell options) \<lparr>custom_cell_of = None, written = []\<rparr>
       else \<lparr>custom_cell_of = None, written = []\<rparr>) [] = (r, out', tr')"
    by (simp add: merge_run_def Let_def)
  from merge_loop_written [OF this]
  have "custom_cell_of out' = (if custom_cell options then Some (forced_cell options) else None)"
    and "\<forall>fr\<in>set (written out'). cell fr = default_cell"
    by (simp_all add: set_cell_def split: if_splits)
  moreover have "shape default_cell = INFINITE"
    by (simp add: default_cell_def)
  ultimately show ?thesis
    by (simp add: run cell_merge_frames empty_frame_def)
qed

text \<open>
  Two inputs with the same orthorhombic cell and no forced cell: the frame written has
  the default cell, not the cell of the inputs. With a forced cell the handle holds it.
\<close>

theorem merge_output_cell_witness:
  "written (fst (snd (merge_run no_cell [file_P, file_P]))) =
     [merge_frames [one_atom ''P'' 0 (orthorhombic 10 10 10),
        one_atom ''P'' 0 (orthorhombic 10 10 10)]] \<and>
   cell (written (fst (snd (merge_run no_cell [file_P, file_P]))) ! 0) = default_cell \<and>
   default_cell \<noteq> orthorhombic 10 10 10 \<and>
   custom_cell_of (fst (snd (merge_run with_cell [file_P, file_Q]))) =
     Some (orthorhombic 30 30 30)"
proof -
  have m: "longest_input [file_P, file_P] = 1"
    by (simp add: longest_input_def file_P_def)
  have "check_unit_cells no_cell (held_frames [file_P, file_P] 0) = Inr ()"
    by (simp add: check_unit_cells_def compare_cells_char held_frames_def held_frame_def
        file_P_def one_atom_def orthorhombic_def no_cell_def)
  then have f: "first_mismatch no_cell (map opened [file_P, file_P]) = 1"
    unfolding first_mismatch_def max_nsteps_opened current_frames_opened m by simp
  have w: "written (fst (snd (merge_run no_cell [file_P, file_P]))) =
     [merge_frames [one_atom ''P'' 0 (orthorhombic 10 10 10),
        one_atom ''P'' 0 (orthorhombic 10 10 10)]]"
    unfolding merge_run_char f
    by (simp add: held_frames_def held_frame_def file_P_def)
  have "cell (written (fst (snd (merge_run no_cell [file_P, file_P]))) ! 0) = default_cell"
    using merge_output_cell [of no_cell "[file_P, file_P]" "[]"] by (simp add: w)
  moreover have "custom_cell_of (fst (snd (merge_run with_cell [file_P, file_Q]))) =
     Some (orthorhombic 30 30 30)"
    using merge_output_cell [of with_cell "[file_P, file_Q]" "[]"] by (simp add: with_cell_def)
  moreover have "default_cell \<noteq> orthorhombic 10 10 10"
    by (simp add: default_cell_def orthorhombic_def)
  ultimately show ?thesis
    using w by simp
qed

section \<open>Radial distribution function: the pairs (claim C7)\<close>

text \<open>The distance that \<open>accumulate\<close> computes is the minimum-image distance.\<close>

lemma rij_minimum_image: "rij wrap frame i j = minimum_image_distance wrap frame i j"
  by (simp add: rij_def minimum_image_distance_def)

lemma fold_record_pair:
  "fold (\<lambda>p s. record_pair wrap r frame (fst p) (snd p) s) ps (h, n) =
     (insert_pairs wrap frame
        (filter (\<lambda>(i, j). minimum_image_distance wrap frame i j < r) ps) h,
      n + length (filter (\<lambda>(i, j). minimum_image_distance wrap frame i j < r) ps))"
  by (induction ps arbitrary: h n)
     (auto simp: record_pair_def insert_pairs_def Let_def rij_minimum_image)

lemma fold_inner:
  "fold (\<lambda>j s. if i = j then s else record_pair wrap r frame i j s) js s =
   fold (\<lambda>p s. record_pair wrap r frame (fst p) (snd p) s)
     [(i, j). j \<leftarrow> js, i \<noteq> j] s"
  by (induction js arbitrary: s) simp_all

lemma fold_outer:
  "fold (\<lambda>i s. fold (\<lambda>j s. if i = j then s else record_pair wrap r frame i j s) js s) is s =
   fold (\<lambda>p s. record_pair wrap r frame (fst p) (snd p) s)
     [(i, j). i \<leftarrow> is, j \<leftarrow> js, i \<noteq> j] s"
  by (induction "is" arbitrary: s) (simp_all add: fold_inner)

lemma count_pairs_char:
  assumes "sel_size (rdf_selection self) = 1 \<or> sel_size (rdf_selection self) = 2"
  shows "count_pairs wrap self frame histogram =
     Inr (insert_pairs wrap frame (recorded_pairs wrap self frame) histogram,
          length (recorded_pairs wrap self frame))"
proof (cases "sel_size (rdf_selection self) = 1")
  case True
  then have "count_pairs wrap self frame histogram =
      Inr (fold (\<lambda>p s. record_pair wrap (rmax (rdf_options self)) frame (fst p) (snd p) s)
        (considered_pairs (rdf_selection self) frame) (histogram, 0))"
    unfolding count_pairs_def considered_pairs_def distinct_pairs_def Let_def fold_outer
    by simp
  then show ?thesis
    unfolding fold_record_pair recorded_pairs_def by simp
next
  case False
  with assms have two: "sel_size (rdf_selection self) = 2" by simp
  then have "count_pairs wrap self frame histogram =
      Inr (fold (\<lambda>p s. record_pair wrap (rmax (rdf_options self)) frame (fst p) (snd p) s)
        (considered_pairs (rdf_selection self) frame) (histogram, 0))"
    unfolding count_pairs_def considered_pairs_def
    by (simp add: fold_map comp_def)
  then show ?thesis
    unfolding fold_record_pair recorded_pairs_def by simp
qed

lemma norm3d_nonneg: "0 \<le> norm3d v"
  by (cases v) (simp add: norm3d_def)

lemma sum_list_update_real:
  fixes xs :: "real list"
  shows "i < length xs \<Longrightarrow> sum_list (xs[i := xs ! i + 1]) = sum_list xs + 1"
proof (induction xs arbitrary: i)
  case Nil
  then show ?case by simp
next
  case (Cons x xs)
  then show ?case by (cases i) simp_all
qed

lemma bin_index_less:
  fixes x u :: real
  assumes "0 \<le> x" and "x < u" and "0 < n"
  shows "nat \<lfloor>x / (u / real n)\<rfloor> < n"
proof -
  have u: "0 < u" using assms by simp
  have "x / (u / real n) = x * real n / u" by simp
  also have "\<dots> < real n"
    using assms u by (simp add: pos_divide_less_eq mult.commute)
  finally have "\<lfloor>x / (u / real n)\<rfloor> < int n"
    by (simp add: floor_less_iff)
  moreover have "0 < int n" using assms(3) by simp
  ultimately show ?thesis by (simp add: nat_less_iff)
qed

lemma insert_at_in_range:
  assumes "lower_bound h = 0" and "0 \<le> x" and "x < upper_bound h" and "bins h \<noteq> []"
  shows "sum_list (bins (insert_at x h)) = sum_list (bins h) + 1"
    and "lower_bound (insert_at x h) = 0" and "upper_bound (insert_at x h) = upper_bound h"
    and "bins (insert_at x h) \<noteq> []"
proof -
  have "nat \<lfloor>x / (upper_bound h / real (length (bins h)))\<rfloor> < length (bins h)"
    using assms by (intro bin_index_less) simp_all
  then show "sum_list (bins (insert_at x h)) = sum_list (bins h) + 1"
    using assms by (simp add: insert_at_def bin_size_def Let_def sum_list_update_real)
  show "lower_bound (insert_at x h) = 0" "upper_bound (insert_at x h) = upper_bound h"
    "bins (insert_at x h) \<noteq> []"
    using assms by (simp_all add: insert_at_def Let_def)
qed

lemma insert_pairs_sum:
  assumes "lower_bound h = 0" and "bins h \<noteq> []"
    and "\<forall>(i, j)\<in>set ps. minimum_image_distance wrap frame i j < upper_bound h"
  shows "sum_list (bins (insert_pairs wrap frame ps h)) = sum_list (bins h) + real (length ps)"
  using assms
proof (induction ps arbitrary: h)
  case Nil
  then show ?case by (simp add: insert_pairs_def)
next
  case (Cons p ps)
  obtain i j where p: "p = (i, j)" by (cases p)
  let ?h = "insert_at (minimum_image_distance wrap frame i j) h"
  have r: "0 \<le> minimum_image_distance wrap frame i j"
    "minimum_image_distance wrap frame i j < upper_bound h"
    using Cons.prems(3) by (simp_all add: p minimum_image_distance_def norm3d_nonneg)
  note ins = insert_at_in_range [OF Cons.prems(1) r Cons.prems(2)]
  have "sum_list (bins (insert_pairs wrap frame ps ?h)) = sum_list (bins ?h) + real (length ps)"
    using Cons.prems(3) ins by (intro Cons.IH) simp_all
  then show ?case
    using ins(1) by (simp add: insert_pairs_def p)
qed

text \<open>
  Claim C7. \<open>accumulate\<close> records pairs and then normalizes. The histogram that it
  normalizes is the one it was given with the minimum-image distance of each recorded
  pair inserted, in order, and the pair count is the number of recorded pairs. The
  recorded pairs are the considered pairs whose minimum-image distance (the norm of the
  vector from \<open>i\<close> to \<open>j\<close> wrapped into the cell of the frame) is strictly below \<open>rmax\<close>.
  With a selection of one atom the considered pairs are the ordered pairs of matched
  atoms with \<open>i \<noteq> j\<close>, in the order of the two loops, so no pair \<open>(i, i)\<close> is among
  them; with a selection of two atoms they are the matches of the selection, as they
  come. Each insertion adds one to a bin of the histogram that \<open>setup\<close> built (from 0
  to \<open>rmax\<close>).
\<close>

theorem rdf_accumulate_pairs:
  assumes "sel_size (rdf_selection self) = 1 \<or> sel_size (rdf_selection self) = 2"
  shows "rdf_accumulate wrap volume self frame histogram =
      Inr (rdf_normalize volume frame (length (recorded_pairs wrap self frame))
             (insert_pairs wrap frame (recorded_pairs wrap self frame) histogram)) \<and>
    recorded_pairs wrap self frame =
      filter (\<lambda>(i, j).
          norm3d (wrap (cell frame) (vsub (positions frame ! j) (positions frame ! i))) <
            rmax (rdf_options self))
        (considered_pairs (rdf_selection self) frame) \<and>
    insert_pairs wrap frame (recorded_pairs wrap self frame) histogram =
      fold (\<lambda>(i, j).
          insert_at (norm3d (wrap (cell frame) (vsub (positions frame ! j) (positions frame ! i)))))
        (recorded_pairs wrap self frame) histogram \<and>
    (sel_size (rdf_selection self) = 1 \<longrightarrow>
       considered_pairs (rdf_selection self) frame =
         [(i, j). i \<leftarrow> sel_list (rdf_selection self) frame,
                  j \<leftarrow> sel_list (rdf_selection self) frame, i \<noteq> j] \<and>
       (\<forall>i. (i, i) \<notin> set (considered_pairs (rdf_selection self) frame))) \<and>
    (sel_size (rdf_selection self) = 2 \<longrightarrow>
       considered_pairs (rdf_selection self) frame =
         map (\<lambda>match. (match ! 0, match ! 1)) (sel_evaluate (rdf_selection self) frame)) \<and>
    (lower_bound histogram = 0 \<and> upper_bound histogram = rmax (rdf_options self) \<and>
     bins histogram \<noteq> [] \<longrightarrow>
       sum_list (bins (insert_pairs wrap frame (recorded_pairs wrap self frame) histogram)) =
         sum_list (bins histogram) + real (length (recorded_pairs wrap self frame)))"
proof (intro conjI impI)
  show "rdf_accumulate wrap volume self frame histogram =
      Inr (rdf_normalize volume frame (length (recorded_pairs wrap self frame))
             (insert_pairs wrap frame (recorded_pairs wrap self frame) histogram))"
    by (simp add: rdf_accumulate_def count_pairs_char [OF assms])
  show "recorded_pairs wrap self frame =
      filter (\<lambda>(i, j).
          norm3d (wrap (cell frame) (vsub (positions frame ! j) (positions frame ! i))) <
            rmax (rdf_options self))
        (considered_pairs (rdf_selection self) frame)"
    by (simp add: recorded_pairs_def minimum_image_distance_def)
  show "insert_pairs wrap frame (recorded_pairs wrap self frame) histogram =
      fold (\<lambda>(i, j).
          insert_at (norm3d (wrap (cell frame) (vsub (positions frame ! j) (positions frame ! i)))))
        (recorded_pairs wrap self frame) histogram"
    by (simp add: insert_pairs_def minimum_image_distance_def)
next
  assume one: "sel_size (rdf_selection self) = 1"
  then show "considered_pairs (rdf_selection self) frame =
         [(i, j). i \<leftarrow> sel_list (rdf_selection self) frame,
                  j \<leftarrow> sel_list (rdf_selection self) frame, i \<noteq> j]"
    by (simp add: considered_pairs_def distinct_pairs_def)
  then show "\<forall>i. (i, i) \<notin> set (considered_pairs (rdf_selection self) frame)"
    by auto
next
  assume "sel_size (rdf_selection self) = 2"
  then show "considered_pairs (rdf_selection self) frame =
         map (\<lambda>match. (match ! 0, match ! 1)) (sel_evaluate (rdf_selection self) frame)"
    by (simp add: considered_pairs_def)
next
  assume h: "lower_bound histogram = 0 \<and> upper_bound histogram = rmax (rdf_options self) \<and>
     bins histogram \<noteq> []"
  then have "\<forall>(i, j)\<in>set (recorded_pairs wrap self frame).
      minimum_image_distance wrap frame i j < upper_bound histogram"
    by (auto simp: recorded_pairs_def)
  with h show "sum_list (bins (insert_pairs wrap frame (recorded_pairs wrap self frame) histogram)) =
         sum_list (bins histogram) + real (length (recorded_pairs wrap self frame))"
    by (intro insert_pairs_sum) simp_all
qed

text \<open>
  Three atoms at 0, 9 and 2 on the first axis of a cubic cell of side 10, with
  \<open>rmax = 2\<close> and the wrap of an orthorhombic cell. With the selection of all atoms the
  six ordered pairs of distinct atoms are considered and no pair \<open>(i, i)\<close>. The atoms 0
  and 1 are 9 apart and at the minimum-image distance 1: both of their pairs are
  recorded. The atoms 0 and 2 are at the distance 2, which is not below \<open>rmax\<close>, and
  the atoms 1 and 2 at the minimum-image distance 3: their pairs are not recorded. With
  the selection of pairs whose matches are (0, 1), (0, 2) and (2, 1), these three pairs
  are considered and (0, 1) alone is recorded. Both recorded distances go to the bin
  from 1 to 2.
\<close>

lemma norm3d_axis: "norm3d (x, 0, 0) = \<bar>x\<bar>"
  by (simp add: norm3d_def)

lemma trio_distances:
  "minimum_image_distance minimum_image wrapped_trio 0 (Suc 0) = 1"
  "minimum_image_distance minimum_image wrapped_trio (Suc 0) 0 = 1"
  "minimum_image_distance minimum_image wrapped_trio 0 2 = 2"
  "minimum_image_distance minimum_image wrapped_trio 2 0 = 2"
  "minimum_image_distance minimum_image wrapped_trio (Suc 0) 2 = 3"
  "minimum_image_distance minimum_image wrapped_trio 2 (Suc 0) = 3"
  by (simp_all add: minimum_image_distance_def minimum_image_def wrap_length_def vsub_def
      norm3d_axis wrapped_trio_def orthorhombic_def round_away_def)

theorem rdf_accumulate_pairs_witness:
  "considered_pairs (rdf_selection example_rdf) wrapped_trio =
     [(0, 1), (0, 2), (1, 0), (1, 2), (2, 0), (2, 1)] \<and>
   recorded_pairs minimum_image example_rdf wrapped_trio = [(0, 1), (1, 0)] \<and>
   insert_pairs minimum_image wrapped_trio (recorded_pairs minimum_image example_rdf wrapped_trio)
     (Histogram 2 0 2) = \<lparr>lower_bound = 0, upper_bound = 2, bins = [0, 2]\<rparr> \<and>
   considered_pairs (rdf_selection example_rdf_pairs) wrapped_trio = [(0, 1), (0, 2), (2, 1)] \<and>
   recorded_pairs minimum_image example_rdf_pairs wrapped_trio = [(0, 1)] \<and>
   insert_pairs minimum_image wrapped_trio
     (recorded_pairs minimum_image example_rdf_pairs wrapped_trio)
     (Histogram 2 0 2) = \<lparr>lower_bound = 0, upper_bound = 2, bins = [0, 1]\<rparr> \<and>
   rmax (rdf_options example_rdf) = 2 \<and> rmax (rdf_options example_rdf_pairs) = 2 \<and>
   norm3d (vsub (positions wrapped_trio ! 1) (positions wrapped_trio ! 0)) = 9 \<and>
   norm3d (minimum_image (cell wrapped_trio)
     (vsub (positions wrapped_trio ! 1) (positions wrapped_trio ! 0))) = 1 \<and>
   norm3d (minimum_image (cell wrapped_trio)
     (vsub (positions wrapped_trio ! 2) (positions wrapped_trio ! 0))) = 2 \<and>
   norm3d (minimum_image (cell wrapped_trio)
     (vsub (positions wrapped_trio ! 1) (positions wrapped_trio ! 2))) = 3"
proof -
  note d = trio_distances [unfolded minimum_image_distance_def]
  have h: "Histogram 2 0 2 = \<lparr>lower_bound = 0, upper_bound = 2, bins = [0, 0]\<rparr>"
    by (simp add: Histogram_def numeral_2_eq_2)
  have ins: "insert_at 1 \<lparr>lower_bound = 0, upper_bound = 2, bins = [x, y]\<rparr> =
     \<lparr>lower_bound = 0, upper_bound = 2, bins = [x, y + 1]\<rparr>" for x y
    by (simp add: insert_at_def bin_size_def)
  have one: "sel_size (rdf_selection example_rdf) = 1"
    by (simp add: example_rdf_def sel_all_def)
  note t = rdf_accumulate_pairs [OF disjI1 [OF one], of minimum_image box_volume wrapped_trio
      "Histogram 2 0 2"]
  note t_recorded = t [THEN conjunct2, THEN conjunct1]
  note t_inserted = t [THEN conjunct2, THEN conjunct2, THEN conjunct1]
  note t_considered =
    t [THEN conjunct2, THEN conjunct2, THEN conjunct2, THEN conjunct1, rule_format, OF one]
  have l: "sel_list (rdf_selection example_rdf) wrapped_trio = [0, 1, 2]"
    by (simp add: example_rdf_def sel_all_def frame_size_def wrapped_trio_def upt_rec)
  have m: "rmax (rdf_options example_rdf) = 2"
    by (simp add: example_rdf_def)
  have c: "considered_pairs (rdf_selection example_rdf) wrapped_trio =
      [(0, 1), (0, 2), (1, 0), (1, 2), (2, 0), (2, 1)]"
    using t_considered [THEN conjunct1] unfolding l by simp
  have rec: "recorded_pairs minimum_image example_rdf wrapped_trio = [(0, 1), (1, 0)]"
    using t_recorded unfolding c m by (simp add: d)
  have i: "insert_pairs minimum_image wrapped_trio
      (recorded_pairs minimum_image example_rdf wrapped_trio) (Histogram 2 0 2) =
      \<lparr>lower_bound = 0, upper_bound = 2, bins = [0, 2]\<rparr>"
    using t_inserted unfolding rec h by (simp add: d ins)
  have two: "sel_size (rdf_selection example_rdf_pairs) = 2"
    by (simp add: example_rdf_pairs_def sel_pairs_def)
  note u = rdf_accumulate_pairs [OF disjI2 [OF two], of minimum_image box_volume wrapped_trio
      "Histogram 2 0 2"]
  note u_recorded = u [THEN conjunct2, THEN conjunct1]
  note u_inserted = u [THEN conjunct2, THEN conjunct2, THEN conjunct1]
  note u_considered =
    u [THEN conjunct2, THEN conjunct2, THEN conjunct2, THEN conjunct2, THEN conjunct1,
       rule_format, OF two]
  have m': "rmax (rdf_options example_rdf_pairs) = 2"
    by (simp add: example_rdf_pairs_def)
  have c': "considered_pairs (rdf_selection example_rdf_pairs) wrapped_trio =
      [(0, 1), (0, 2), (2, 1)]"
    using u_considered by (simp add: example_rdf_pairs_def sel_pairs_def)
  have rec': "recorded_pairs minimum_image example_rdf_pairs wrapped_trio = [(0, 1)]"
    using u_recorded unfolding c' m' by (simp add: d)
  have i': "insert_pairs minimum_image wrapped_trio
      (recorded_pairs minimum_image example_rdf_pairs wrapped_trio) (Histogram 2 0 2) =
      \<lparr>lower_bound = 0, upper_bound = 2, bins = [0, 1]\<rparr>"
    using u_inserted unfolding rec' h by (simp add: d ins)
  have plain: "norm3d (vsub (positions wrapped_trio ! 1) (positions wrapped_trio ! 0)) = 9"
    by (simp add: vsub_def norm3d_axis wrapped_trio_def)
  show ?thesis
    using c rec i c' rec' i' m m' plain d by simp
qed

section \<open>Radial distribution function: the setup (claims C6 and C8)\<close>

text \<open>
  Claim C6. When the options of the harness hold a custom cell and the values of
  \<open>--max\<close> and \<open>--points\<close> are read as numbers (otherwise \<open>setup\<close> throws at line 59 or
  60, before any \<open>rmax\<close> is set), \<open>setup\<close> leaves \<open>rmax\<close> at half the smallest of the
  three lengths of that cell, whatever \<open>--max\<close> was, and the histogram it builds runs
  from 0 to that value.
\<close>

theorem rdf_setup_rmax:
  assumes "rdf_setup parse_options parse_selection stod stol args
      (self, average0, histogram, io) = (res, self', average', histogram', io')"
    and "parse_options args (average0, io) = (Inr (), average, io1)"
    and "avg_custom_cell average"
    and "stod (arg_max args) = Inr max_read" and "stol (arg_points args) = Inr points_read"
  shows "rmax (rdf_options self') =
           min (cell_a (avg_cell average)) (min (cell_b (avg_cell average)) (cell_c (avg_cell average))) / 2 \<and>
         lower_bound histogram' = 0 \<and>
         upper_bound histogram' =
           min (cell_a (avg_cell average)) (min (cell_b (avg_cell average)) (cell_c (avg_cell average))) / 2"
  using assms
  by (auto simp: rdf_setup_def Let_def Histogram_def split: sum.splits if_splits)

text \<open>
  With \<open>--max=10\<close> and a custom cell of lengths 6, 8 and 10, \<open>rmax\<close> is 3.
\<close>

theorem rdf_setup_rmax_witness:
  "example_stod (arg_max (example_args ''all'')) = Inr 10 \<and>
   rmax (rdf_options (fst (snd (rdf_setup example_parse_options example_selection
      example_stod example_stol (example_args ''all'')
      (example_rdf, example_average, Histogram 0 0 0, []))))) = 3 \<and>
   upper_bound (fst (snd (snd (snd (rdf_setup example_parse_options example_selection
      example_stod example_stol (example_args ''all'')
      (example_rdf, example_average, Histogram 0 0 0, [])))))) = 3"
proof -
  obtain res self' average' histogram' io' where
    r: "rdf_setup example_parse_options example_selection example_stod example_stol
      (example_args ''all'') (example_rdf, example_average, Histogram 0 0 0, []) =
      (res, self', average', histogram', io')"
    by (metis prod_cases5)
  have p: "example_parse_options (example_args ''all'') (example_average, []) =
      (Inr (), example_average, [])"
    by (simp add: example_parse_options_def)
  have c: "avg_custom_cell example_average"
    by (simp add: example_average_def)
  have n: "example_stod (arg_max (example_args ''all'')) = Inr 10"
    "example_stol (arg_points (example_args ''all'')) = Inr 200"
    by (simp_all add: example_stod_def example_stol_def example_args_def)
  from rdf_setup_rmax [OF r p c n]
  have "rmax (rdf_options self') = 3" "upper_bound histogram' = 3"
    by (simp_all add: example_average_def orthorhombic_def)
  then show ?thesis
    using n(1) by (simp add: r)
qed




section \<open>Radial distribution function: the density (claim C1)\<close>

text \<open>What lines 129 to 133 compute, for a positive volume and for the others.\<close>

lemma rdf_density_positive: "0 < V \<Longrightarrow> rdf_density n V = Number (real n)"
  by (simp add: rdf_density_def)

lemma rdf_density_not_positive:
  "\<not> 0 < V \<Longrightarrow>
   rdf_density n V =
     (if V \<noteq> 0 then Number (real n / V) else if n = 0 then NotANumber else PlusInfinity)"
  by (simp add: rdf_density_def infinity_of_def)

lemma rij_boxed:
  "rij minimum_image boxed_pair 0 (Suc 0) = 1" "rij minimum_image boxed_pair (Suc 0) 0 = 1"
  by (simp_all add: rij_def minimum_image_def wrap_length_def vsub_def norm3d_def boxed_pair_def
      orthorhombic_def round_away_def)

lemma record_boxed:
  "record_pair minimum_image 2 boxed_pair 0 (Suc 0) (h, n) = (insert_at 1 h, Suc n)"
  "record_pair minimum_image 2 boxed_pair (Suc 0) 0 (h, n) = (insert_at 1 h, Suc n)"
  by (simp_all add: record_pair_def rij_boxed)

lemma insert_boxed:
  "insert_at 1 \<lparr>lower_bound = 0, upper_bound = 2, bins = [x, y]\<rparr> =
     \<lparr>lower_bound = 0, upper_bound = 2, bins = [x, y + 1]\<rparr>"
  by (simp add: insert_at_def bin_size_def)

lemma count_boxed:
  "count_pairs minimum_image example_rdf boxed_pair (Histogram 2 0 2) =
     Inr (\<lparr>lower_bound = 0, upper_bound = 2, bins = [0, 2]\<rparr>, 2)"
proof -
  have l: "sel_list (rdf_selection example_rdf) boxed_pair = [0, Suc 0]"
    by (simp add: example_rdf_def sel_all_def frame_size_def boxed_pair_def)
  have o: "sel_size (rdf_selection example_rdf) = 1" "rmax (rdf_options example_rdf) = 2"
    by (simp_all add: example_rdf_def sel_all_def)
  have h: "Histogram 2 0 2 = \<lparr>lower_bound = 0, upper_bound = 2, bins = [0, 0]\<rparr>"
    by (simp add: Histogram_def numeral_2_eq_2)
  show ?thesis
    unfolding count_pairs_def o l h
    by (simp add: record_boxed insert_boxed)
qed

lemma count_unboxed:
  "count_pairs minimum_image example_rdf frame_two (Histogram 2 0 2) =
     Inr (\<lparr>lower_bound = 0, upper_bound = 2, bins = [0, 2]\<rparr>, 2)"
proof -
  have l: "sel_list (rdf_selection example_rdf) frame_two = [0, Suc 0]"
    by (simp add: example_rdf_def sel_all_def frame_size_def frame_two_def)
  have o: "sel_size (rdf_selection example_rdf) = 1" "rmax (rdf_options example_rdf) = 2"
    by (simp_all add: example_rdf_def sel_all_def)
  have h: "Histogram 2 0 2 = \<lparr>lower_bound = 0, upper_bound = 2, bins = [0, 0]\<rparr>"
    by (simp add: Histogram_def numeral_2_eq_2)
  have r: "rij minimum_image frame_two 0 (Suc 0) = 1" "rij minimum_image frame_two (Suc 0) 0 = 1"
    by (simp_all add: rij_def minimum_image_def vsub_def norm3d_def frame_two_def default_cell_def)
  show ?thesis
    unfolding count_pairs_def o l h
    by (simp add: record_pair_def r insert_boxed)
qed

text \<open>
  Claim C1 does not hold of the code. \<open>boxed_pair\<close> has 2 atoms in a cell of volume 64,
  and both ordered pairs are recorded, in bin 1 of 2 bins of width 1. The claim gives
  the density \<open>2 / 64\<close>; \<open>accumulate\<close> divides bin 1 by \<open>K * rho * 2 * 1 * 1.5\<^sup>2\<close> with
  \<open>K = 1e-6 * 2 * 4 * pi\<close> and \<open>rho = 2\<close>, the number of atoms: line 130 replaces a
  positive volume by 1. A volume that is not positive is kept: \<open>frame_two\<close> has the
  same two atoms in an infinite cell, of volume 0, the atom count is divided by zero,
  the density is infinite and every bin is left at 0, where the claim gives the atom
  count itself for the density.
\<close>

theorem rdf_accumulate_density:
  "rdf_accumulate minimum_image box_volume example_rdf boxed_pair (Histogram 2 0 2) =
     Inr (Some \<lparr>lower_bound = 0, upper_bound = 2,
       bins = [0, 2 / (1 / 1000000 * 2 * 4 * pi_const * 2 * 2 * 1 * (1.5 * 1.5))]\<rparr>) \<and>
   box_volume (cell boxed_pair) = 64 \<and> frame_size boxed_pair = 2 \<and>
   rdf_density 2 64 = Number 2 \<and> rdf_density 2 0 = PlusInfinity \<and>
   rdf_accumulate minimum_image box_volume example_rdf frame_two (Histogram 2 0 2) =
     Inr (Some \<lparr>lower_bound = 0, upper_bound = 2, bins = [0, 0]\<rparr>) \<and>
   box_volume (cell frame_two) = 0 \<and> frame_size frame_two = 2"
  by (simp add: rdf_accumulate_def count_boxed count_unboxed)
     (simp add: rdf_density_def rdf_normalize_def box_volume_def orthorhombic_def boxed_pair_def
      frame_two_def default_cell_def frame_size_def bin_size_def normalize_def pi_const_def
      infinity_of_def Let_def)

section \<open>Convert: no step is written (claim C5)\<close>

text \<open>
  The loop of lines 129 to 146, had \<open>run\<close> come to it: the option \<open>wrap\<close> changes
  nothing, and without bond guessing the frames are written as the file holds them.
\<close>

lemma wrap_positions_id: "wrap_positions wrap frame = frame"
proof -
  have "fold (\<lambda>position frame. (let position = f position in frame)) ps fr = fr" for f ps
    and fr :: frame
    by (induction ps) simp_all
  then show ?thesis
    by (simp add: wrap_positions_def Let_def)
qed

lemma hbonds_steps_wrap:
  "hbonds_steps wrap guess_topology options is s =
   hbonds_steps wrap guess_topology (options\<lparr>hb_wrap := False\<rparr>) is s"
proof (induction "is" arbitrary: s)
  case Nil
  show ?case by simp
next
  case (Cons i "is")
  obtain infile outfile where s: "s = (infile, outfile)" by (cases s)
  show ?case
    unfolding s by (simp add: wrap_positions_id Cons.IH split: sum.split)
qed

lemma hbonds_steps_written:
  assumes "traj_step infile + length is \<le> nsteps infile" and "\<not> hb_guess_bonds options"
  shows "hbonds_steps wrap guess_topology options is (infile, outfile) =
     (Inr (), infile\<lparr>traj_step := traj_step infile + length is\<rparr>,
      outfile\<lparr>written := written outfile @
        take (length is) (drop (traj_step infile) (traj_frames infile))\<rparr>)"
  using assms
proof (induction "is" arbitrary: infile outfile)
  case Nil
  then show ?case by simp
next
  case (Cons i "is")
  let ?t = "infile\<lparr>traj_step := Suc (traj_step infile)\<rparr>"
  let ?fr = "traj_frames infile ! traj_step infile"
  have lt: "traj_step infile < nsteps infile" using Cons.prems by simp
  have rd: "read infile = Inr (?fr, ?t)"
    using lt by (simp add: read_def)
  have "hbonds_steps wrap guess_topology options (i # is) (infile, outfile) =
      hbonds_steps wrap guess_topology options is (?t, write_frame ?fr outfile)"
    using Cons.prems(2) by (simp add: rd wrap_positions_id)
  also have "\<dots> = (Inr (), ?t\<lparr>traj_step := traj_step ?t + length is\<rparr>,
      (write_frame ?fr outfile)\<lparr>written := written (write_frame ?fr outfile) @
        take (length is) (drop (traj_step ?t) (traj_frames ?t))\<rparr>)"
    using Cons.prems by (intro Cons.IH) (simp_all add: nsteps_def)
  also have "take (Suc (length is)) (drop (traj_step infile) (traj_frames infile)) =
      ?fr # take (length is) (drop (Suc (traj_step infile)) (traj_frames infile))"
    using lt by (simp add: nsteps_def Cons_nth_drop_Suc [symmetric])
  then have "(write_frame ?fr outfile)\<lparr>written := written (write_frame ?fr outfile) @
        take (length is) (drop (traj_step ?t) (traj_frames ?t))\<rparr> =
      outfile\<lparr>written := written outfile @
        take (length (i # is)) (drop (traj_step infile) (traj_frames infile))\<rparr>"
    by (simp add: write_frame_def)
  finally show ?case by simp
qed

text \<open>
  \<open>run\<close> does not come to the loop. \<open>parse_options\<close> reads \<open><input>\<close> first, a name
  that the usage text does not have: on every map that docopt can return for this
  usage text, \<open>args["<input>"]\<close> is an empty value and \<open>asString\<close> throws. Nothing is
  opened, read or written.
\<close>

lemma hbonds_usage_input:
  assumes "dom args \<subseteq> set hbonds_usage"
  shows "args ''<input>'' = None"
proof -
  have "''<input>'' \<notin> set hbonds_usage"
    by (simp add: hbonds_usage_def)
  with assms show ?thesis by blast
qed

lemma hbonds_parse_options_throws:
  assumes "args ''<input>'' = None"
  shows "hbonds_parse_options parse_steps parse_cell options args =
     Inl (RuntimeError ''Illegal cast to string; type is actually empty'')"
  using assms
  by (simp add: hbonds_parse_options_def and_then_def subscript_def asString_def
      kindAsString_def)

lemma hbonds_run_throws:
  assumes "dom args \<subseteq> set hbonds_usage"
  shows "hbonds_run wrap guess_topology read_topology parse_steps parse_cell options files args =
     (Inl (RuntimeError ''Illegal cast to string; type is actually empty''), None)"
proof -
  have "args ''<input>'' = None"
    using assms by (rule hbonds_usage_input)
  then show ?thesis
    by (simp add: hbonds_run_def hbonds_parse_options_throws)
qed

text \<open>
  Claim C5 does not hold of the code. For the command line \<open>cfiles hbonds water.xyz\<close>,
  where \<open>water.xyz\<close> holds one frame, docopt returns a value for each name of the usage
  text; \<open>run\<close> throws the \<open>std::runtime_error\<close> of docopt at line 71 and the output
  trajectory is not even opened, where the claim has the frame of the step written to
  the output. Had the loop been reached with wrapping requested, the frame would
  have been written with its atom at (12, 0, 0), as it was read, where the wrap of that
  position in the cell of the frame is (2, 0, 0).
\<close>

theorem hbonds_run_no_step:
  "hbonds_run minimum_image (\<lambda>fr. fr) (\<lambda>path format. topology empty_frame)
     (\<lambda>steps. Inr (0, 0, 1)) (\<lambda>cell. Inr default_cell) initial_options water_files water_args =
     (Inl (RuntimeError ''Illegal cast to string; type is actually empty''), None) \<and>
   dom water_args = set hbonds_usage \<and>
   water_files ''water.xyz'' = Some [one_atom ''O'' 12 (orthorhombic 10 10 10)] \<and>
   positions (wrap_positions minimum_image (one_atom ''O'' 12 (orthorhombic 10 10 10))) =
     [(12, 0, 0)] \<and>
   minimum_image (cell (one_atom ''O'' 12 (orthorhombic 10 10 10))) (12, 0, 0) = (2, 0, 0)"
proof -
  have d: "dom water_args = set hbonds_usage"
    unfolding water_args_def hbonds_usage_def dom_map_of_conv_image_fst by simp
  have "water_args ''<input>'' = None"
    by (simp add: water_args_def)
  then have "hbonds_run minimum_image (\<lambda>fr. fr) (\<lambda>path format. topology empty_frame)
     (\<lambda>steps. Inr (0, 0, 1)) (\<lambda>cell. Inr default_cell) initial_options water_files water_args =
     (Inl (RuntimeError ''Illegal cast to string; type is actually empty''), None)"
    by (simp add: hbonds_run_def hbonds_parse_options_def and_then_def subscript_def
        asString_def kindAsString_def)
  then show ?thesis
    using d
    by (simp add: water_files_def wrap_positions_def one_atom_def minimum_image_def
        wrap_length_def orthorhombic_def round_away_def Let_def)
qed

end
